theory Spec2Isabelle
  imports Main
begin

section \<open>Common types\<close>

text \<open>
  A \<open>bytes32\<close> value (header hash, puzzle hash, coin id, peer id) is identified with the
  number it encodes. Heights, weights and timestamps are Python integers: the \<open>uint32\<close>,
  \<open>uint64\<close> and \<open>uint128\<close> classes of the code base are subclasses of \<open>int\<close> whose
  arithmetic returns plain unbounded integers, so \<open>height - 100\<close> can be negative.
\<close>

type_synonym bytes32 = nat

text \<open>The Python exceptions that the modelled functions can raise.\<close>

datatype exn =
    LimitedSemaphoreFullError
  | AssertionError
  | RuntimeError
  | ValueError
  | AttributeError
  | IndexError
  | KeyError

section \<open>LimitedSemaphore (\<open>chia/util/limited_semaphore.py\<close>)\<close>

text \<open>
  \<open>LimitedSemaphore.acquire\<close> is an asynchronous context manager. A call first checks
  and decrements \<open>_available_count\<close>, then suspends in \<open>async with self._semaphore\<close>
  until the inner \<open>asyncio.Semaphore\<close> grants a slot, then records the task in
  \<open>_active_tasks\<close> and suspends at \<open>yield\<close> while the caller's guarded section runs;
  the \<open>finally\<close> block runs when the call is left. The state therefore holds, besides
  the fields of the dataclass, the suspended \<open>acquire\<close> calls (the entrants) with the
  point at which each one is suspended. Every call is made from a task, so the assertion
  on \<open>asyncio.current_task()\<close> passes. The logger, the monitor task and the
  \<open>acquired_time\<close> of a \<open>TaskInfo\<close> only feed log messages and are left out.
\<close>

type_synonym task = nat

datatype phase = Waiting | Active

datatype exit_path = BodyReturned | BodyRaised exn

record limited_semaphore =
  semaphore_value :: int
  available_count :: int
  active_tasks :: "task set"
  entrants :: "(task \<times> phase) list"

text \<open>
  \<open>create\<close>: \<open>asyncio.Semaphore(active_limit)\<close> raises \<open>ValueError\<close> for a negative
  initial value.
\<close>

definition create :: "int \<Rightarrow> int \<Rightarrow> exn + limited_semaphore" where
  "create active_limit waiting_limit =
     (if active_limit < 0 then Inl ValueError
      else Inr \<lparr> semaphore_value = active_limit,
                 available_count = active_limit + waiting_limit,
                 active_tasks = {},
                 entrants = [] \<rparr>)"

text \<open>
  \<open>acquire\<close>, up to the first suspension: raise when no slot is available, otherwise
  take one and wait for the inner semaphore.
\<close>

definition acquire :: "task \<Rightarrow> limited_semaphore \<Rightarrow> exn + limited_semaphore" where
  "acquire t s =
     (if available_count s < 1 then Inl LimitedSemaphoreFullError
      else Inr (s\<lparr> available_count := available_count s - 1,
                   entrants := entrants s @ [(t, Waiting)] \<rparr>))"

definition remove_nth :: "nat \<Rightarrow> 'a list \<Rightarrow> 'a list" where
  "remove_nth i xs = take i xs @ drop (Suc i) xs"

text \<open>
  The inner semaphore grants a slot to the waiting entrant number \<open>i\<close>: its value is
  decremented, the task is stored in \<open>_active_tasks\<close> and the guarded section starts.
\<close>

definition grant :: "nat \<Rightarrow> limited_semaphore \<Rightarrow> limited_semaphore option" where
  "grant i s =
     (if i < length (entrants s) \<and> snd (entrants s ! i) = Waiting \<and> 0 < semaphore_value s
      then Some (s\<lparr> semaphore_value := semaphore_value s - 1,
                    active_tasks := insert (fst (entrants s ! i)) (active_tasks s),
                    entrants := (entrants s)[i := (fst (entrants s ! i), Active)] \<rparr>)
      else None)"

text \<open>
  The guarded section of the active entrant number \<open>i\<close> ends, by returning or by
  raising: the inner semaphore is released, the \<open>finally\<close> block gives the slot back
  and pops the task, and an exception of the section propagates.
\<close>

definition leave ::
  "nat \<Rightarrow> exit_path \<Rightarrow> limited_semaphore \<Rightarrow> ((exn + unit) \<times> limited_semaphore) option" where
  "leave i path s =
     (if i < length (entrants s) \<and> snd (entrants s ! i) = Active
      then Some ((case path of BodyReturned \<Rightarrow> Inr () | BodyRaised e \<Rightarrow> Inl e),
                 s\<lparr> semaphore_value := semaphore_value s + 1,
                    available_count := available_count s + 1,
                    active_tasks := active_tasks s - {fst (entrants s ! i)},
                    entrants := remove_nth i (entrants s) \<rparr>)
      else None)"

text \<open>
  The waiting entrant number \<open>i\<close> is cancelled before it got a slot: only the
  \<open>finally\<close> block runs.
\<close>

definition cancel :: "nat \<Rightarrow> limited_semaphore \<Rightarrow> limited_semaphore option" where
  "cancel i s =
     (if i < length (entrants s) \<and> snd (entrants s ! i) = Waiting
      then Some (s\<lparr> available_count := available_count s + 1,
                    active_tasks := active_tasks s - {fst (entrants s ! i)},
                    entrants := remove_nth i (entrants s) \<rparr>)
      else None)"

datatype sem_event = Acquire task | Grant nat | Leave nat exit_path | Cancel nat

text \<open>
  A history of the semaphore. A refused \<open>acquire\<close> raises in its caller and leaves the
  semaphore as it was; an event that cannot happen in the current state makes the
  history impossible (\<open>None\<close>).
\<close>

fun run :: "sem_event list \<Rightarrow> limited_semaphore \<Rightarrow> limited_semaphore option" where
  "run [] s = Some s"
| "run (Acquire t # es) s = (case acquire t s of Inl _ \<Rightarrow> run es s | Inr s' \<Rightarrow> run es s')"
| "run (Grant i # es) s = (case grant i s of None \<Rightarrow> None | Some s' \<Rightarrow> run es s')"
| "run (Leave i p # es) s = (case leave i p s of None \<Rightarrow> None | Some (_, s') \<Rightarrow> run es s')"
| "run (Cancel i # es) s = (case cancel i s of None \<Rightarrow> None | Some s' \<Rightarrow> run es s')"

definition active_entrants :: "limited_semaphore \<Rightarrow> (task \<times> phase) list" where
  "active_entrants s = filter (\<lambda>e. snd e = Active) (entrants s)"

definition sem_inv :: "int \<Rightarrow> int \<Rightarrow> limited_semaphore \<Rightarrow> bool" where
  "sem_inv al wl s \<longleftrightarrow>
     available_count s = al + wl - int (length (entrants s)) \<and>
     0 \<le> available_count s \<and>
     semaphore_value s = al - int (length (active_entrants s)) \<and>
     active_tasks s \<subseteq> fst ` set (active_entrants s)"


section \<open>Data of the wallet node (\<open>chia/wallet/wallet_node.py\<close>)\<close>

record foliage_tx_block =
  additions_root :: bytes32
  removals_root :: bytes32
  timestamp :: int

text \<open>
  \<open>HeaderBlock\<close>: \<open>height\<close> and \<open>weight\<close> are the properties that read
  \<open>reward_chain_block.height\<close> and \<open>reward_chain_block.weight\<close>.
\<close>

record header_block =
  height :: int
  weight :: int
  header_hash :: bytes32
  prev_header_hash :: bytes32
  foliage_transaction_block :: "foliage_tx_block option"

record coin_t =
  parent_coin_info :: bytes32
  puzzle_hash :: bytes32
  amount :: int

record coin_state =
  coin :: coin_t
  spent_height :: "int option"
  created_height :: "int option"

text \<open>The fields of \<open>WalletCoinRecord\<close> that the node reads.\<close>

record wallet_coin_record =
  confirmed_block_height :: int
  spent_block_height :: int

type_synonym sub_epoch_summary = nat
type_synonym block_record = nat

record weight_proof =
  sub_epochs :: "nat list"
  recent_chain_data :: "header_block list"

text \<open>The message \<open>wallet_protocol.NewPeakWallet\<close>.\<close>

record peak_msg =
  peak_header_hash :: bytes32
  peak_height :: int
  peak_weight :: int
  fork_point_with_previous_peak :: int

text \<open>
  Modelled from the spec: \<open>PeerRequestCache\<close> of
  \<open>chia/wallet/util/wallet_sync_utils.py\<close>, which is not among the sources, with the
  four dictionaries of section 3 under the names by which the node reads and writes them;
  a new cache is empty.
\<close>

record peer_request_cache =
  blocks :: "int \<rightharpoonup> header_block"
  block_requests :: "(int \<times> int) \<rightharpoonup> header_block list"
  ses_requests :: "int \<rightharpoonup> nat"
  states_validated :: "bytes32 \<rightharpoonup> coin_state"

definition PeerRequestCache :: peer_request_cache where
  "PeerRequestCache = \<lparr> blocks = Map.empty, block_requests = Map.empty,
                         ses_requests = Map.empty, states_validated = Map.empty \<rparr>"

text \<open>
  A connected full node (\<open>WSChiaConnection\<close>). Its answers are functions of the request;
  \<open>None\<close> is a missing answer. \<open>fetch_last_tx_from_peer\<close>,
  \<open>request_and_validate_additions\<close> and \<open>request_and_validate_removals\<close> are the
  helpers of \<open>wallet_sync_utils\<close> that talk to this peer.
\<close>

record peer =
  peer_node_id :: bytes32
  request_block_header :: "int \<Rightarrow> header_block option"
  request_header_blocks :: "int \<Rightarrow> int \<Rightarrow> header_block list option"
  request_proof_of_weight :: "int \<Rightarrow> bytes32 \<Rightarrow> weight_proof option"
  register_interest_in_puzzle_hash :: "bytes32 list \<Rightarrow> int \<Rightarrow> coin_state list option"
  register_interest_in_coin :: "bytes32 list \<Rightarrow> int \<Rightarrow> coin_state list option"
  fetch_last_tx_from_peer :: "int \<Rightarrow> header_block option"
  request_and_validate_additions :: "int \<Rightarrow> bytes32 \<Rightarrow> bytes32 \<Rightarrow> bytes32 \<Rightarrow> bool"
  request_and_validate_removals :: "int \<Rightarrow> bytes32 \<Rightarrow> bytes32 \<Rightarrow> bytes32 \<Rightarrow> bool"

text \<open>
  Modelled from the spec: \<open>ReceiveBlockResult\<close> of \<open>chia/consensus/blockchain.py\<close>,
  which is not among the sources; the node only asks whether the result is
  \<open>INVALID_BLOCK\<close>, and every other result is \<open>OTHER_RESULT\<close>.
\<close>

datatype receive_block_result = INVALID_BLOCK | OTHER_RESULT

text \<open>
  The calls to collaborators that the properties below count: closing a peer (with the
  code given, if any) and four calls of the wallet state manager.
\<close>

datatype event =
    PeerClose bytes32 "int option"
  | ReorgRollback int
  | ReceiveBlock header_block
  | ValidateWeightProof weight_proof
  | NewCoinState "coin_state list" bytes32 "int option"

text \<open>
  The collaborators of the node that are not among the sources are parameters of the
  model: the wallet state manager with its blockchain, stores and weight proof handler
  (operations on a state of an arbitrary type \<open>'w\<close>), the server and the configuration,
  the helpers of \<open>chia.wallet.util\<close>, and the hash functions of the streamable
  classes. \<open>validate_block_inclusion\<close> is a method of the node itself (lines
  1150 to 1277) that checks a header against the weight proof; it reads the wallet
  blockchain, talks to the peer and fills the request cache of the peer, and no property
  below depends on how it decides, so it is a parameter as well.
\<close>

record 'w env =
  get_peak_block :: "'w \<Rightarrow> header_block option"
  get_peak_height :: "'w \<Rightarrow> int"
  set_peak_block :: "header_block \<Rightarrow> int \<Rightarrow> 'w \<Rightarrow> 'w"
  contains_block :: "'w \<Rightarrow> bytes32 \<Rightarrow> bool"
  height_to_hash :: "'w \<Rightarrow> int \<Rightarrow> bytes32"
  receive_block :: "header_block \<Rightarrow> 'w \<Rightarrow> receive_block_result \<times> 'w"
  get_finished_sync_up_to :: "'w \<Rightarrow> int"
  set_finished_sync_up_to :: "int \<Rightarrow> 'w \<Rightarrow> 'w"
  reorg_rollback :: "int \<Rightarrow> 'w \<Rightarrow> 'w"
  new_coin_state :: "coin_state list \<Rightarrow> bytes32 \<Rightarrow> int option \<Rightarrow> 'w \<Rightarrow> 'w"
  new_peak :: "peak_msg \<Rightarrow> 'w \<Rightarrow> 'w"
  set_sync_mode :: "bool \<Rightarrow> 'w \<Rightarrow> 'w"
  synced_weight_proof :: "'w \<Rightarrow> weight_proof option"
  new_weight_proof :: "weight_proof \<Rightarrow> block_record list \<Rightarrow> 'w \<Rightarrow> 'w"
  get_fork_point :: "'w \<Rightarrow> weight_proof \<Rightarrow> weight_proof \<Rightarrow> int"
  validate_weight_proof ::
    "'w \<Rightarrow> weight_proof \<Rightarrow> bool \<times> int \<times> sub_epoch_summary list \<times> block_record list"
  get_coin_record :: "'w \<Rightarrow> bytes32 \<Rightarrow> wallet_coin_record option"
  get_all_puzzle_hashes :: "'w \<Rightarrow> bytes32 list"
  get_interested_puzzle_hashes :: "'w \<Rightarrow> (bytes32 \<times> int) list"
  create_more_puzzle_hashes :: "'w \<Rightarrow> 'w"
  get_coins_to_check :: "'w \<Rightarrow> int \<Rightarrow> bytes32 list"
  get_coins_of_interest :: "'w \<Rightarrow> bytes32 list"
  get_interested_coin_ids :: "'w \<Rightarrow> bytes32 list"
  is_trusted_peer :: "bytes32 \<Rightarrow> bool"
  full_node_connections :: "bytes32 list"
  testing :: bool
  WEIGHT_PROOF_RECENT_BLOCKS :: int
  filter_coin_states :: "coin_state list \<Rightarrow> int \<Rightarrow> coin_state list"
  can_use_peer_request_cache :: "coin_state \<Rightarrow> peer_request_cache \<Rightarrow> int option \<Rightarrow> bool"
  clear_after_height :: "int \<Rightarrow> peer_request_cache \<Rightarrow> peer_request_cache"
  validate_block_inclusion ::
    "header_block \<Rightarrow> peer \<Rightarrow> peer_request_cache \<Rightarrow> 'w \<Rightarrow> (exn + bool) \<times> peer_request_cache"
  coin_name :: "coin_t \<Rightarrow> bytes32"
  coin_state_hash :: "coin_state \<Rightarrow> bytes32"
  weight_proof_hash :: "weight_proof \<Rightarrow> bytes32"

text \<open>
  The fields of \<open>WalletNode\<close> that the modelled methods use, and the trace of counted
  calls. A Python \<open>set\<close> of coin states in \<open>race_cache\<close> is a list without duplicates:
  \<open>set.add\<close> is \<open>List.insert\<close>, and \<open>list(...)\<close> of the set, whose order Python
  leaves open, is the list itself. The node is started: \<open>wallet_state_manager\<close> and
  \<open>server\<close> are not \<open>None\<close>, so the assertions on them pass. Logging and the
  notifications to the user interface (\<open>state_changed\<close>, \<open>update_ui\<close>) are left out.
\<close>

record 'w wallet_node =
  wallet_state_manager :: 'w
  synced_peers :: "bytes32 set"
  valid_wp_cache ::
    "bytes32 \<rightharpoonup> (bool \<times> int \<times> sub_epoch_summary list \<times> block_record list)"
  untrusted_caches :: "bytes32 \<rightharpoonup> peer_request_cache"
  race_cache :: "bytes32 \<rightharpoonup> coin_state list"
  race_cache_hashes :: "(int \<times> bytes32) list"
  node_peaks :: "bytes32 \<rightharpoonup> (int \<times> bytes32)"
  local_node_synced :: bool
  trace :: "event list"

definition LONG_SYNC_THRESHOLD :: int where
  "LONG_SYNC_THRESHOLD = 200"

section \<open>Methods as state transformers\<close>

text \<open>
  A method takes the node and returns \<open>None\<close> when a loop of it has not finished within
  the fuel it was given, and otherwise the node it leaves behind together with the
  exception it raised (\<open>Inl\<close>) or the value it returned (\<open>Inr\<close>).
\<close>

type_synonym ('s, 'a) prog = "'s \<Rightarrow> ((exn + 'a) \<times> 's) option"

definition ret :: "'a \<Rightarrow> ('s, 'a) prog" where
  "ret a = (\<lambda>s. Some (Inr a, s))"

definition raise :: "exn \<Rightarrow> ('s, 'a) prog" where
  "raise e = (\<lambda>s. Some (Inl e, s))"

definition out_of_fuel :: "('s, 'a) prog" where
  "out_of_fuel = (\<lambda>s. None)"

definition bindM :: "('s, 'a) prog \<Rightarrow> ('a \<Rightarrow> ('s, 'b) prog) \<Rightarrow> ('s, 'b) prog" where
  "bindM m f = (\<lambda>s. case m s of
       None \<Rightarrow> None
     | Some (Inl e, s') \<Rightarrow> Some (Inl e, s')
     | Some (Inr a, s') \<Rightarrow> f a s')"

definition thenM :: "('s, 'a) prog \<Rightarrow> ('s, 'b) prog \<Rightarrow> ('s, 'b) prog" where
  "thenM m n = bindM m (\<lambda>_. n)"

definition gets :: "('s \<Rightarrow> 'a) \<Rightarrow> ('s, 'a) prog" where
  "gets f = (\<lambda>s. Some (Inr (f s), s))"

definition modify :: "('s \<Rightarrow> 's) \<Rightarrow> ('s, unit) prog" where
  "modify f = (\<lambda>s. Some (Inr (), f s))"

definition whenM :: "bool \<Rightarrow> ('s, unit) prog \<Rightarrow> ('s, unit) prog" where
  "whenM b m = (if b then m else ret ())"

text \<open>\<open>try: m except Exception as e: h e\<close>. Every exception of the model is an \<open>Exception\<close>.\<close>

definition try_except :: "('s, 'a) prog \<Rightarrow> (exn \<Rightarrow> ('s, 'a) prog) \<Rightarrow> ('s, 'a) prog" where
  "try_except m h = (\<lambda>s. case m s of
       None \<Rightarrow> None
     | Some (Inl e, s') \<Rightarrow> h e s'
     | Some (Inr a, s') \<Rightarrow> Some (Inr a, s'))"

definition lift_result :: "exn + 'a \<Rightarrow> ('s, 'a) prog" where
  "lift_result r = (case r of Inl e \<Rightarrow> raise e | Inr a \<Rightarrow> ret a)"

definition wsm_do :: "('w \<Rightarrow> 'w) \<Rightarrow> ('w wallet_node, unit) prog" where
  "wsm_do f = modify (\<lambda>s. s\<lparr> wallet_state_manager := f (wallet_state_manager s) \<rparr>)"

definition wsm_get :: "('w \<Rightarrow> 'a) \<Rightarrow> ('w wallet_node, 'a) prog" where
  "wsm_get f = gets (\<lambda>s. f (wallet_state_manager s))"

definition log_event :: "event \<Rightarrow> ('w wallet_node, unit) prog" where
  "log_event ev = modify (\<lambda>s. s\<lparr> trace := trace s @ [ev] \<rparr>)"

definition peer_close :: "peer \<Rightarrow> int option \<Rightarrow> ('w wallet_node, unit) prog" where
  "peer_close p code = log_event (PeerClose (peer_node_id p) code)"

definition is_trusted :: "'w env \<Rightarrow> peer \<Rightarrow> bool" where
  "is_trusted env p = is_trusted_peer env (peer_node_id p)"


text \<open>The wallet state manager calls that the trace counts.\<close>

definition do_reorg_rollback :: "'w env \<Rightarrow> int \<Rightarrow> ('w wallet_node, unit) prog" where
  "do_reorg_rollback env h = thenM (log_event (ReorgRollback h)) (wsm_do (reorg_rollback env h))"

definition do_receive_block ::
  "'w env \<Rightarrow> header_block \<Rightarrow> ('w wallet_node, receive_block_result) prog" where
  "do_receive_block env b =
     thenM (log_event (ReceiveBlock b))
       (bindM (wsm_get (receive_block env b)) (\<lambda>(res, w').
          thenM (wsm_do (\<lambda>_. w')) (ret res)))"

definition do_new_coin_state ::
  "'w env \<Rightarrow> coin_state list \<Rightarrow> peer \<Rightarrow> int option \<Rightarrow> ('w wallet_node, unit) prog" where
  "do_new_coin_state env states p fork_height =
     thenM (log_event (NewCoinState states (peer_node_id p) fork_height))
       (wsm_do (new_coin_state env states (peer_node_id p) fork_height))"

definition do_validate_weight_proof ::
  "'w env \<Rightarrow> weight_proof \<Rightarrow>
   ('w wallet_node, bool \<times> int \<times> sub_epoch_summary list \<times> block_record list) prog" where
  "do_validate_weight_proof env wp =
     thenM (log_event (ValidateWeightProof wp))
       (wsm_get (\<lambda>w. validate_weight_proof env w wp))"

subsection \<open>Request caches\<close>

text \<open>
  The request cache that a method receives is always the object that
  \<open>get_cache_for_peer\<close> keeps in \<open>untrusted_caches\<close>; the model addresses it by the
  peer's id.
\<close>

definition get_cache_for_peer :: "peer \<Rightarrow> ('w wallet_node, unit) prog" where
  "get_cache_for_peer p =
     modify (\<lambda>s. if untrusted_caches s (peer_node_id p) = None
                  then s\<lparr> untrusted_caches := (untrusted_caches s)(peer_node_id p \<mapsto> PeerRequestCache) \<rparr>
                  else s)"

definition cache_of :: "'w wallet_node \<Rightarrow> peer \<Rightarrow> peer_request_cache" where
  "cache_of s p =
     (case untrusted_caches s (peer_node_id p) of None \<Rightarrow> PeerRequestCache | Some c \<Rightarrow> c)"

definition update_cache ::
  "peer \<Rightarrow> (peer_request_cache \<Rightarrow> peer_request_cache) \<Rightarrow> ('w wallet_node, unit) prog" where
  "update_cache p f =
     modify (\<lambda>s. s\<lparr> untrusted_caches := (untrusted_caches s)(peer_node_id p \<mapsto> f (cache_of s p)) \<rparr>)"

definition rollback_request_caches :: "'w env \<Rightarrow> int \<Rightarrow> ('w wallet_node, unit) prog" where
  "rollback_request_caches env reorg_height =
     modify (\<lambda>s. s\<lparr> untrusted_caches :=
        (\<lambda>k. map_option (clear_after_height env reorg_height) (untrusted_caches s k)) \<rparr>)"

subsection \<open>\<open>add_state_to_race_cache\<close>\<close>

definition delete_threshold :: int where
  "delete_threshold = 100"

text \<open>
  The first loop: \<open>self.race_cache.pop(rc_hh)\<close> for every listed entry that is old
  enough; \<open>dict.pop\<close> without a default raises \<open>KeyError\<close> for a missing key.
\<close>

fun pop_old_states :: "int \<Rightarrow> (int \<times> bytes32) list \<Rightarrow> ('w wallet_node, unit) prog" where
  "pop_old_states h [] = ret ()"
| "pop_old_states h ((rc_height, rc_hh) # rest) =
     (if h - delete_threshold \<ge> rc_height
      then bindM (gets race_cache) (\<lambda>rc.
             case rc rc_hh of
               None \<Rightarrow> raise KeyError
             | Some _ \<Rightarrow>
                 thenM (modify (\<lambda>s. s\<lparr> race_cache := (race_cache s)(rc_hh := None) \<rparr>))
                       (pop_old_states h rest))
      else pop_old_states h rest)"

definition add_state_to_race_cache ::
  "bytes32 \<Rightarrow> int \<Rightarrow> coin_state \<Rightarrow> ('w wallet_node, unit) prog" where
  "add_state_to_race_cache hh h cs =
     bindM (gets race_cache_hashes) (\<lambda>hashes.
     thenM (pop_old_states h hashes)
    (thenM (modify (\<lambda>s. s\<lparr> race_cache_hashes :=
              filter (\<lambda>(rc_height, rc_hh). h - delete_threshold < rc_height) (race_cache_hashes s) \<rparr>))
    (thenM (modify (\<lambda>s. if race_cache s hh = None
                         then s\<lparr> race_cache := (race_cache s)(hh \<mapsto> []) \<rparr> else s))
    (bindM (gets race_cache) (\<lambda>rc.
       case rc hh of
         None \<Rightarrow> raise KeyError
       | Some states \<Rightarrow>
           modify (\<lambda>s. s\<lparr> race_cache := (race_cache s)(hh \<mapsto> List.insert cs states) \<rparr>))))))"

subsection \<open>\<open>subscribe_to_phs\<close> and \<open>subscribe_to_coin_updates\<close>\<close>

text \<open>
  \<open>syncing\<close> is \<open>None\<close>, \<open>True\<close> or \<open>False\<close>; the test
  \<open>not trusted and syncing is not None and not syncing\<close> holds exactly for an untrusted
  peer and \<open>syncing = False\<close>.
\<close>

definition subscribe_to_phs ::
  "'w env \<Rightarrow> bytes32 list \<Rightarrow> peer \<Rightarrow> bool option \<Rightarrow> int \<Rightarrow> int option \<Rightarrow>
   ('w wallet_node, coin_state list) prog" where
  "subscribe_to_phs env puzzle_hashes p syncing min_height fork_height =
     (let trusted = is_trusted env p;
          all_coins_state = register_interest_in_puzzle_hash p puzzle_hashes min_height
      in case all_coins_state of
           None \<Rightarrow> ret []
         | Some coin_states \<Rightarrow>
             if \<not> trusted \<and> syncing \<noteq> None \<and> syncing \<noteq> Some True
             then (case fork_height of
                     None \<Rightarrow> raise AssertionError
                   | Some fh \<Rightarrow> ret (filter_coin_states env coin_states fh))
             else ret coin_states)"

definition subscribe_to_coin_updates ::
  "'w env \<Rightarrow> bytes32 list \<Rightarrow> peer \<Rightarrow> bool option \<Rightarrow> int \<Rightarrow> int option \<Rightarrow>
   ('w wallet_node, coin_state list) prog" where
  "subscribe_to_coin_updates env coin_names p syncing min_height fork_height =
     (let trusted = is_trusted env p;
          all_coins_state = register_interest_in_coin p coin_names min_height
      in case all_coins_state of
           None \<Rightarrow> ret []
         | Some coin_states \<Rightarrow>
             if \<not> trusted \<and> syncing \<noteq> None \<and> syncing \<noteq> Some True
             then (case fork_height of
                     None \<Rightarrow> raise AssertionError
                   | Some fh \<Rightarrow> ret (filter_coin_states env coin_states fh))
             else ret coin_states)"

subsection \<open>\<open>is_peer_synced\<close>\<close>

definition is_peer_synced :: "'w env \<Rightarrow> peer \<Rightarrow> int \<Rightarrow> int \<Rightarrow> exn + int option" where
  "is_peer_synced env p h request_time =
     (case request_block_header p h of
        None \<Rightarrow> Inl AssertionError
      | Some header_response \<Rightarrow>
          (case fetch_last_tx_from_peer p h of
             None \<Rightarrow> Inr None
           | Some last_tx \<Rightarrow>
               (case foliage_transaction_block last_tx of
                  None \<Rightarrow> Inl AssertionError
                | Some ftb \<Rightarrow>
                    if \<not> testing env \<and> timestamp ftb < request_time - 600 then Inr None
                    else Inr (Some (timestamp ftb)))))"

subsection \<open>\<open>fetch_and_validate_the_weight_proof\<close>\<close>

definition fetch_and_validate_the_weight_proof ::
  "'w env \<Rightarrow> peer \<Rightarrow> header_block \<Rightarrow>
   ('w wallet_node,
    bool \<times> weight_proof option \<times> sub_epoch_summary list \<times> block_record list) prog" where
  "fetch_and_validate_the_weight_proof env p peak =
     (case request_proof_of_weight p (height peak) (header_hash peak) of
        None \<Rightarrow> ret (False, None, [], [])
      | Some wp \<Rightarrow>
          if recent_chain_data wp = [] then raise IndexError
          else if height (last (recent_chain_data wp)) \<noteq> height peak
          then ret (False, None, [], [])
          else if weight (last (recent_chain_data wp)) \<noteq> weight peak
          then ret (False, None, [], [])
          else bindM (gets valid_wp_cache) (\<lambda>cache.
            case cache (weight_proof_hash env wp) of
              Some (valid, fork_point, summaries, block_records) \<Rightarrow>
                ret (valid, Some wp, summaries, block_records)
            | None \<Rightarrow>
                bindM (do_validate_weight_proof env wp)
                  (\<lambda>(valid, fork_point, summaries, block_records).
                thenM (whenM valid (modify (\<lambda>s. s\<lparr> valid_wp_cache :=
                         (valid_wp_cache s)(weight_proof_hash env wp \<mapsto>
                            (valid, fork_point, summaries, block_records)) \<rparr>)))
                      (ret (valid, Some wp, summaries, block_records)))))"


subsection \<open>\<open>validate_received_state_from_peer\<close>\<close>

text \<open>
  \<open>res = await peer.request_header_blocks(RequestHeaderBlocks(h, h))\<close> followed by
  \<open>res.header_blocks[0]\<close>: a missing answer has no attribute \<open>header_blocks\<close>, an
  empty answer has no first element.
\<close>

definition header_block_at :: "peer \<Rightarrow> int \<Rightarrow> exn + header_block" where
  "header_block_at p h =
     (case request_header_blocks p h h of
        None \<Rightarrow> Inl AttributeError
      | Some [] \<Rightarrow> Inl IndexError
      | Some (b # _) \<Rightarrow> Inr b)"

text \<open>
  The method up to the point where it has either answered at once or fixed the height
  whose header it will check: the cache hit, the comparison with the coin record of the
  wallet, and the reorg case in which the peer reports no creation height for a coin that
  the wallet has.
\<close>

datatype validation_start = Answer bool | Check int bool

definition current_spent_height :: "wallet_coin_record option \<Rightarrow> int option" where
  "current_spent_height current =
     (case current of
        None \<Rightarrow> None
      | Some c \<Rightarrow> if spent_block_height c \<noteq> 0 then Some (spent_block_height c) else None)"

definition validation_start ::
  "'w env \<Rightarrow> coin_state \<Rightarrow> peer_request_cache \<Rightarrow> int option \<Rightarrow> wallet_coin_record option \<Rightarrow>
   validation_start" where
  "validation_start env cs cache fork_height current =
     (if can_use_peer_request_cache env cs cache fork_height then Answer True
      else if current \<noteq> None \<and> current_spent_height current = spent_height cs
              \<and> map_option confirmed_block_height current = created_height cs
      then Answer True
      else let reorg_mode = (current \<noteq> None \<and> created_height cs = None);
               confirmed_height = (if reorg_mode then map_option confirmed_block_height current
                                   else created_height cs)
           in case confirmed_height of
                None \<Rightarrow> Answer False
              | Some ch \<Rightarrow> Check ch reorg_mode)"

text \<open>The header at the creation height: from the cache unless in reorg mode, else fetched.\<close>

definition state_block_for :: "peer \<Rightarrow> peer_request_cache \<Rightarrow> int \<Rightarrow> bool \<Rightarrow> exn + header_block" where
  "state_block_for p cache confirmed_height reorg_mode =
     (case blocks cache confirmed_height of
        Some b \<Rightarrow> if \<not> reorg_mode then Inr b else header_block_at p confirmed_height
      | None \<Rightarrow> header_block_at p confirmed_height)"

definition block_inclusion :: "'w env \<Rightarrow> header_block \<Rightarrow> peer \<Rightarrow> ('w wallet_node, bool) prog" where
  "block_inclusion env b p =
     bindM (gets (\<lambda>s. validate_block_inclusion env b p (cache_of s p) (wallet_state_manager s)))
       (\<lambda>(r, cache'). thenM (update_cache p (\<lambda>_. cache')) (lift_result r))"

text \<open>
  Lines 1093 to 1120: the peer reports as unspent a coin that the wallet knows as spent.
  \<open>current.spent_block_height != spent_height\<close> holds since \<open>spent_height\<close> is
  \<open>None\<close>, so \<open>reorg_mode\<close> is set and the header is always fetched.
\<close>

definition check_unspent ::
  "'w env \<Rightarrow> coin_state \<Rightarrow> peer \<Rightarrow> wallet_coin_record option \<Rightarrow> ('w wallet_node, bool) prog" where
  "check_unspent env cs p current =
     (case current of
        None \<Rightarrow> ret True
      | Some c \<Rightarrow>
          if spent_height cs = None \<and> spent_block_height c \<noteq> 0
          then bindM (lift_result (header_block_at p (spent_block_height c))) (\<lambda>spent_state_block.
                 if height spent_state_block \<noteq> spent_block_height c then raise AssertionError
                 else thenM (update_cache p (\<lambda>cache. cache\<lparr> blocks :=
                               (blocks cache)(spent_block_height c \<mapsto> spent_state_block) \<rparr>))
                   (case foliage_transaction_block spent_state_block of
                      None \<Rightarrow> raise AssertionError
                    | Some ftb \<Rightarrow>
                        if \<not> request_and_validate_removals p (spent_block_height c)
                               (header_hash spent_state_block) (coin_name env (coin cs))
                               (removals_root ftb)
                        then thenM (peer_close p (Some 9999)) (ret False)
                        else block_inclusion env spent_state_block p))
          else ret True)"

text \<open>Lines 1122 to 1146: the spend of the coin.\<close>

definition check_spent :: "'w env \<Rightarrow> coin_state \<Rightarrow> peer \<Rightarrow> ('w wallet_node, bool) prog" where
  "check_spent env cs p =
     (case spent_height cs of
        None \<Rightarrow> ret True
      | Some sh \<Rightarrow>
          bindM (gets (\<lambda>s. blocks (cache_of s p) sh)) (\<lambda>cached.
          bindM (case cached of
                   Some b \<Rightarrow> ret b
                 | None \<Rightarrow>
                     bindM (lift_result (header_block_at p sh)) (\<lambda>b.
                       if height b \<noteq> sh then raise AssertionError
                       else thenM (update_cache p (\<lambda>cache. cache\<lparr> blocks :=
                                     (blocks cache)(sh \<mapsto> b) \<rparr>)) (ret b)))
            (\<lambda>spent_state_block.
          case foliage_transaction_block spent_state_block of
            None \<Rightarrow> raise AssertionError
          | Some ftb \<Rightarrow>
              if \<not> request_and_validate_removals p (height spent_state_block)
                     (header_hash spent_state_block) (coin_name env (coin cs)) (removals_root ftb)
              then thenM (peer_close p (Some 9999)) (ret False)
              else block_inclusion env spent_state_block p)))"

definition validate_received_state_from_peer ::
  "'w env \<Rightarrow> coin_state \<Rightarrow> peer \<Rightarrow> int option \<Rightarrow> ('w wallet_node, bool) prog" where
  "validate_received_state_from_peer env cs p fork_height =
     bindM (gets (\<lambda>s. cache_of s p)) (\<lambda>cache.
     bindM (wsm_get (\<lambda>w. get_coin_record env w (coin_name env (coin cs)))) (\<lambda>current.
     case validation_start env cs cache fork_height current of
       Answer b \<Rightarrow> ret b
     | Check confirmed_height reorg_mode \<Rightarrow>
         bindM (lift_result (state_block_for p cache confirmed_height reorg_mode)) (\<lambda>state_block.
         thenM (whenM (blocks cache confirmed_height = None \<or> reorg_mode)
                  (update_cache p (\<lambda>c. c\<lparr> blocks := (blocks c)(confirmed_height \<mapsto> state_block) \<rparr>)))
           (case foliage_transaction_block state_block of
              None \<Rightarrow> raise AssertionError
            | Some ftb \<Rightarrow>
                if \<not> request_and_validate_additions p (height state_block)
                       (header_hash state_block) (puzzle_hash (coin cs)) (additions_root ftb)
                then thenM (peer_close p (Some 9999)) (ret False)
                else bindM (block_inclusion env state_block p) (\<lambda>validated.
                     if \<not> validated then ret False
                     else bindM (check_unspent env cs p current) (\<lambda>unspent_ok.
                     if \<not> unspent_ok then ret False
                     else bindM (check_spent env cs p) (\<lambda>spent_ok.
                     if \<not> spent_ok then ret False
                     else thenM (update_cache p (\<lambda>c. c\<lparr> states_validated :=
                                   (states_validated c)(coin_state_hash env cs \<mapsto> cs) \<rparr>))
                            (ret True))))))))"

subsection \<open>\<open>receive_state_from_peer\<close>\<close>

text \<open>
  The body of the inner coroutine \<open>receive_and_validate\<close>. An exception in it is logged
  and swallowed.
\<close>

definition receive_and_validate ::
  "'w env \<Rightarrow> peer \<Rightarrow> bool \<Rightarrow> int option \<Rightarrow> int option \<Rightarrow> bytes32 option \<Rightarrow> coin_state \<Rightarrow>
   ('w wallet_node, unit) prog" where
  "receive_and_validate env p trusted fork_height h hh inner_state =
     try_except
       (thenM (case hh of
                 None \<Rightarrow> ret ()
               | Some header_hash' \<Rightarrow>
                   (case h of
                      None \<Rightarrow> raise AssertionError
                    | Some height' \<Rightarrow> add_state_to_race_cache header_hash' height' inner_state))
          (bindM (if trusted then ret True
                  else validate_received_state_from_peer env inner_state p fork_height) (\<lambda>valid.
             whenM valid (do_new_coin_state env [inner_state] p fork_height))))
       (\<lambda>e. ret ())"

text \<open>
  The coroutines of the items are gathered; they take turns at their suspension points under
  a semaphore of six. The model runs them one after the other in the order of the items.
\<close>

fun receive_all ::
  "'w env \<Rightarrow> peer \<Rightarrow> bool \<Rightarrow> int option \<Rightarrow> int option \<Rightarrow> bytes32 option \<Rightarrow> coin_state list \<Rightarrow>
   ('w wallet_node, unit) prog" where
  "receive_all env p trusted fork_height h hh [] = ret ()"
| "receive_all env p trusted fork_height h hh (potential_state # rest) =
     thenM (receive_and_validate env p trusted fork_height h hh potential_state)
           (receive_all env p trusted fork_height h hh rest)"

definition receive_state_from_peer ::
  "'w env \<Rightarrow> coin_state list \<Rightarrow> peer \<Rightarrow> int option \<Rightarrow> int option \<Rightarrow> bytes32 option \<Rightarrow>
   ('w wallet_node, unit) prog" where
  "receive_state_from_peer env items p fork_height h hh =
     (let trusted = is_trusted env p in
      thenM (case (fork_height, h) of
               (Some fh, Some height') \<Rightarrow>
                 whenM (trusted \<and> fh \<noteq> height' - 1) (do_reorg_rollback env fh)
             | _ \<Rightarrow> ret ())
     (thenM (get_cache_for_peer p)
     (thenM (case fork_height of
               None \<Rightarrow> ret ()
             | Some fh \<Rightarrow> update_cache p (clear_after_height env fh))
            (receive_all env p trusted fork_height h hh items))))"


subsection \<open>\<open>long_sync\<close>\<close>

text \<open>
  Modelled from the spec: \<open>chunks\<close> of \<open>chia/full_node/weight_proof.py\<close>, which is not
  among the sources, cuts a list into the batches of 1000 in which section 4.G.1
  subscribes.
\<close>

function chunks :: "'a list \<Rightarrow> nat \<Rightarrow> 'a list list" where
  "chunks some_list chunk_size =
     (if some_list = [] then []
      else take (max 1 chunk_size) some_list # chunks (drop (max 1 chunk_size) some_list) chunk_size)"
  by pat_completeness auto
termination
  by (relation "measure (\<lambda>(some_list, chunk_size). length some_list)") auto

definition get_puzzle_hashes_to_subscribe :: "'w env \<Rightarrow> 'w \<Rightarrow> bytes32 list" where
  "get_puzzle_hashes_to_subscribe env w =
     get_all_puzzle_hashes env w @ map fst (get_interested_puzzle_hashes env w)"

text \<open>
  The coin ids are collected in a Python \<open>set\<close> and returned as a list of it; the model
  lists them in the order of their first occurrence.
\<close>

definition get_coin_ids_to_subscribe :: "'w env \<Rightarrow> 'w \<Rightarrow> int \<Rightarrow> bytes32 list" where
  "get_coin_ids_to_subscribe env w min_height =
     remdups (get_coins_to_check env w min_height @ get_coins_of_interest env w
              @ get_interested_coin_ids env w)"

text \<open>The \<open>for chunk in ph_chunks\<close> loop.\<close>

fun subscribe_chunks ::
  "'w env \<Rightarrow> peer \<Rightarrow> bool \<Rightarrow> int \<Rightarrow> int option \<Rightarrow> bytes32 list list \<Rightarrow> bytes32 set \<Rightarrow>
   ('w wallet_node, bytes32 set) prog" where
  "subscribe_chunks env full_node syncing min_height fork_height [] already_checked_ph =
     ret already_checked_ph"
| "subscribe_chunks env full_node syncing min_height fork_height (chunk # rest) already_checked_ph =
     bindM (subscribe_to_phs env (filter (\<lambda>ph. ph \<notin> already_checked_ph) chunk) full_node
              (Some syncing) min_height fork_height) (\<lambda>ph_update_res.
     thenM (receive_state_from_peer env ph_update_res full_node None None None)
           (subscribe_chunks env full_node syncing min_height fork_height rest
              (already_checked_ph \<union> set chunk)))"

text \<open>
  The \<open>while continue_while\<close> loop over the puzzle hashes. It ends when a pass finds no
  puzzle hash that was not subscribed; one unit of fuel pays for one pass.
\<close>

fun subscribe_all_phs ::
  "'w env \<Rightarrow> nat \<Rightarrow> peer \<Rightarrow> bool \<Rightarrow> int \<Rightarrow> int option \<Rightarrow> bytes32 list \<Rightarrow> bytes32 set \<Rightarrow>
   ('w wallet_node, bytes32 set) prog" where
  "subscribe_all_phs env 0 full_node syncing min_height fork_height all_puzzle_hashes
     already_checked_ph = out_of_fuel"
| "subscribe_all_phs env (Suc fuel) full_node syncing min_height fork_height all_puzzle_hashes
     already_checked_ph =
     bindM (subscribe_chunks env full_node syncing min_height fork_height
              (chunks all_puzzle_hashes 1000) already_checked_ph) (\<lambda>checked.
     thenM (wsm_do (create_more_puzzle_hashes env))
    (bindM (wsm_get (get_puzzle_hashes_to_subscribe env)) (\<lambda>all_puzzle_hashes'.
       if \<exists>ph \<in> set all_puzzle_hashes'. ph \<notin> checked
       then subscribe_all_phs env fuel full_node syncing min_height fork_height
              all_puzzle_hashes' checked
       else ret checked)))"

text \<open>
  \<open>continue_while\<close> is \<open>False\<close> when the loop over the coin ids is reached, so its body
  never runs; the coin ids are only read.
\<close>

definition long_sync ::
  "'w env \<Rightarrow> nat \<Rightarrow> int \<Rightarrow> peer \<Rightarrow> bool \<Rightarrow> int option \<Rightarrow> ('w wallet_node, unit) prog" where
  "long_sync env fuel target_height full_node syncing fork_height =
     (let trusted = is_trusted env full_node in
      bindM (wsm_get (get_finished_sync_up_to env)) (\<lambda>current_height.
      let min_height = max 0 (current_height - 32) in
      thenM (whenM syncing
               (thenM (do_reorg_rollback env min_height) (rollback_request_caches env min_height)))
     (bindM (wsm_get (get_puzzle_hashes_to_subscribe env)) (\<lambda>all_puzzle_hashes.
      bindM (subscribe_all_phs env fuel full_node syncing min_height fork_height
               all_puzzle_hashes {}) (\<lambda>already_checked_ph.
      bindM (wsm_get (\<lambda>w. get_coin_ids_to_subscribe env w min_height)) (\<lambda>all_coin_ids.
      bindM (wsm_get (get_finished_sync_up_to env)) (\<lambda>finished.
      thenM (whenM (target_height > finished) (wsm_do (set_finished_sync_up_to env target_height)))
     (thenM (whenM trusted (modify (\<lambda>s. s\<lparr> local_node_synced := True \<rparr>)))
            (modify (\<lambda>s. s\<lparr> synced_peers := insert (peer_node_id full_node) (synced_peers s) \<rparr>))))))))))"

subsection \<open>\<open>wallet_short_sync_backtrack\<close>\<close>

text \<open>
  The \<open>while\<close> loop that fetches headers backwards. Nothing forces the peer to answer
  with headers of decreasing height, so the loop need not end; one unit of fuel pays for
  one fetched header.
\<close>

fun fetch_backwards ::
  "'w env \<Rightarrow> nat \<Rightarrow> peer \<Rightarrow> 'w \<Rightarrow> header_block \<Rightarrow> header_block list \<Rightarrow> int \<Rightarrow>
   (exn + header_block list \<times> int) option" where
  "fetch_backwards env fuel p w top_block blks fork_height =
     (if \<not> contains_block env w (prev_header_hash top_block) \<and> height top_block > 0
      then (case fuel of
              0 \<Rightarrow> None
            | Suc fuel' \<Rightarrow>
                (case request_block_header p (height top_block - 1) of
                   None \<Rightarrow> Some (Inl RuntimeError)
                 | Some prev_head \<Rightarrow>
                     fetch_backwards env fuel' p w prev_head (blks @ [prev_head])
                       (height prev_head - 1)))
      else Some (Inr (blks, fork_height)))"

text \<open>The \<open>for block in blocks\<close> loop.\<close>

fun receive_blocks :: "'w env \<Rightarrow> header_block list \<Rightarrow> ('w wallet_node, unit) prog" where
  "receive_blocks env [] = ret ()"
| "receive_blocks env (block # rest) =
     bindM (do_receive_block env block) (\<lambda>res.
       if res = INVALID_BLOCK then raise ValueError else receive_blocks env rest)"

definition wallet_short_sync_backtrack ::
  "'w env \<Rightarrow> nat \<Rightarrow> header_block \<Rightarrow> peer \<Rightarrow> ('w wallet_node, int) prog" where
  "wallet_short_sync_backtrack env fuel header_block p =
     bindM (wsm_get (get_peak_block env)) (\<lambda>peak.
     bindM (wsm_get (\<lambda>w. fetch_backwards env fuel p w header_block [header_block]
              (if contains_block env w (prev_header_hash header_block)
               then height header_block - 1 else 0))) (\<lambda>fetched.
     case fetched of
       None \<Rightarrow> out_of_fuel
     | Some (Inl e) \<Rightarrow> raise e
     | Some (Inr (blks, fork_height)) \<Rightarrow>
         bindM (wsm_get (get_peak_height env)) (\<lambda>peak_height'.
         thenM (whenM (fork_height < peak_height') (do_reorg_rollback env fork_height))
        (thenM (rollback_request_caches env fork_height)
        (thenM (case peak of
                  None \<Rightarrow> ret ()
                | Some pk \<Rightarrow> if weight header_block \<ge> weight pk then ret ()
                             else raise AssertionError)
        (thenM (receive_blocks env (rev blks))
               (ret fork_height)))))))"


subsection \<open>\<open>new_peak_wallet\<close>\<close>

text \<open>
  \<open>disconnect_and_stop_wpeers\<close> closes the untrusted ones among the full node
  connections of the server when there is more than one connection. Stopping the peer
  discovery (\<open>wallet_peers\<close>) is left out.
\<close>

fun close_untrusted :: "'w env \<Rightarrow> bytes32 list \<Rightarrow> ('w wallet_node, unit) prog" where
  "close_untrusted env [] = ret ()"
| "close_untrusted env (peer_id # rest) =
     thenM (whenM (\<not> is_trusted_peer env peer_id) (log_event (PeerClose peer_id None)))
           (close_untrusted env rest)"

definition disconnect_and_stop_wpeers :: "'w env \<Rightarrow> ('w wallet_node, unit) prog" where
  "disconnect_and_stop_wpeers env =
     whenM (length (full_node_connections env) > 1)
       (close_untrusted env (full_node_connections env))"

text \<open>Lines 806 to 817: the peer is trusted.\<close>

definition sync_trusted ::
  "'w env \<Rightarrow> nat \<Rightarrow> peak_msg \<Rightarrow> peer \<Rightarrow> header_block \<Rightarrow> int \<Rightarrow> ('w wallet_node, unit) prog" where
  "sync_trusted env fuel peak p header_block latest_timestamp =
     thenM (wsm_do (set_peak_block env header_block latest_timestamp))
    (thenM (disconnect_and_stop_wpeers env)
    (bindM (gets synced_peers) (\<lambda>sp.
       whenM (peer_node_id p \<notin> sp)
         (thenM (long_sync env fuel (peak_height peak) p True None)
                (wsm_do (set_sync_mode env False))))))"

text \<open>
  Lines 828 to 872: the peer is untrusted and the wallet has not synced to it or is far
  behind. The result tells whether \<open>new_peak_wallet\<close> goes on after the branch
  (\<open>False\<close> stands for its \<open>return\<close> statements).
\<close>

definition sync_with_weight_proof ::
  "'w env \<Rightarrow> nat \<Rightarrow> peak_msg \<Rightarrow> peer \<Rightarrow> header_block \<Rightarrow> bool \<Rightarrow> ('w wallet_node, bool) prog" where
  "sync_with_weight_proof env fuel peak p header_block far_behind =
     bindM (gets synced_peers) (\<lambda>sp.
     let syncing = (far_behind \<or> sp = {}) in
     thenM (whenM syncing (wsm_do (set_sync_mode env True)))
    (bindM (try_except
       (bindM (fetch_and_validate_the_weight_proof env p header_block)
          (\<lambda>(valid_weight_proof, weight_proof', summaries, block_records).
        if \<not> valid_weight_proof
        then thenM (whenM syncing (wsm_do (set_sync_mode env False)))
            (thenM (peer_close p None) (ret False))
        else case weight_proof' of
               None \<Rightarrow> raise AssertionError
             | Some wp \<Rightarrow>
                 bindM (wsm_get (synced_weight_proof env)) (\<lambda>old_proof.
                 bindM (wsm_get (\<lambda>w. case old_proof of
                                        None \<Rightarrow> 0
                                      | Some old \<Rightarrow> get_fork_point env w old wp)) (\<lambda>fork_point.
                 thenM (wsm_do (new_weight_proof env wp block_records))
                (thenM (long_sync env fuel (peak_height peak) p syncing (Some fork_point))
                (bindM (wsm_get (synced_weight_proof env)) (\<lambda>synced.
                 thenM (case synced of
                          None \<Rightarrow> wsm_do (new_weight_proof env wp block_records)
                        | Some swp \<Rightarrow>
                            if recent_chain_data wp = [] \<or> recent_chain_data swp = []
                            then raise IndexError
                            else whenM (weight (last (recent_chain_data wp))
                                          > weight (last (recent_chain_data swp)))
                                   (wsm_do (new_weight_proof env wp block_records)))
                       (ret True))))))))
       (\<lambda>e. thenM (whenM syncing (wsm_do (set_sync_mode env False)))
            (thenM (peer_close p None) (ret False))))
       (\<lambda>goes_on.
          if goes_on then thenM (whenM syncing (wsm_do (set_sync_mode env False))) (ret True)
          else ret False)))"

text \<open>Lines 899 to 904: the race cache is applied for every height above the fork.\<close>

fun replay_race_cache :: "'w env \<Rightarrow> peer \<Rightarrow> int list \<Rightarrow> ('w wallet_node, unit) prog" where
  "replay_race_cache env p [] = ret ()"
| "replay_race_cache env p (potential_height # rest) =
     bindM (wsm_get (\<lambda>w. height_to_hash env w potential_height)) (\<lambda>hh.
     bindM (gets race_cache) (\<lambda>rc.
     thenM (case rc hh of
              None \<Rightarrow> ret ()
            | Some states \<Rightarrow> receive_state_from_peer env states p None None None)
           (replay_race_cache env p rest)))"

text \<open>Lines 874 to 908: the peer is untrusted, synced to, and not far ahead.\<close>

definition short_sync ::
  "'w env \<Rightarrow> nat \<Rightarrow> peak_msg \<Rightarrow> peer \<Rightarrow> header_block \<Rightarrow> ('w wallet_node, unit) prog" where
  "short_sync env fuel peak p header_block =
     bindM (wallet_short_sync_backtrack env fuel header_block p) (\<lambda>backtrack_fork_height.
     thenM (bindM (gets synced_peers) (\<lambda>sp.
              whenM (peer_node_id p \<notin> sp)
                (bindM (wsm_get (\<lambda>w. get_coin_ids_to_subscribe env w 0)) (\<lambda>all_coin_ids.
                 bindM (wsm_get (get_puzzle_hashes_to_subscribe env)) (\<lambda>phs.
                 bindM (subscribe_to_phs env phs p (Some True) 0 None) (\<lambda>ph_updates.
                 bindM (subscribe_to_coin_updates env all_coin_ids p (Some True) 0 None)
                   (\<lambda>coin_updates.
                 bindM (gets node_peaks) (\<lambda>peaks.
                 case peaks (peer_node_id p) of
                   None \<Rightarrow> raise KeyError
                 | Some (peer_new_peak_height, peer_new_peak_hash) \<Rightarrow>
                     thenM (receive_state_from_peer env (ph_updates @ coin_updates) p None
                              (Some peer_new_peak_height) (Some peer_new_peak_hash))
                           (modify (\<lambda>s. s\<lparr> synced_peers :=
                              insert (peer_node_id p) (synced_peers s) \<rparr>))))))))))
    (thenM (replay_race_cache env p [backtrack_fork_height + 1 .. peak_height peak])
           (wsm_do (set_sync_mode env False))))"

text \<open>
  The part of \<open>new_peak_wallet\<close> that runs under the low-priority lock after the second
  look at the local peak (lines 786 to 915).
\<close>

definition process_new_peak ::
  "'w env \<Rightarrow> nat \<Rightarrow> int \<Rightarrow> peak_msg \<Rightarrow> peer \<Rightarrow> bool \<Rightarrow> ('w wallet_node, unit) prog" where
  "process_new_peak env fuel request_time peak p trusted =
     bindM (lift_result (is_peer_synced env p (peak_height peak) request_time))
       (\<lambda>latest_timestamp.
     case latest_timestamp of
       None \<Rightarrow> if trusted then ret () else peer_close p (Some 120)
     | Some latest \<Rightarrow>
         (case request_block_header p (peak_height peak) of
            None \<Rightarrow> peer_close p (Some 120)
          | Some header_block \<Rightarrow>
              bindM (if is_trusted env p
                     then thenM (sync_trusted env fuel peak p header_block latest) (ret True)
                     else bindM (wsm_get (get_peak_height env)) (\<lambda>local_height.
                          bindM (gets synced_peers) (\<lambda>sp.
                          let far_behind = (peak_height peak - local_height > LONG_SYNC_THRESHOLD)
                          in if (peer_node_id p \<notin> sp \<or> far_behind)
                                \<and> peak_height peak \<ge> WEIGHT_PROOF_RECENT_BLOCKS env
                             then sync_with_weight_proof env fuel peak p header_block far_behind
                             else thenM (short_sync env fuel peak p header_block) (ret True))))
                (\<lambda>goes_on.
              if \<not> goes_on then ret ()
              else bindM (gets synced_peers) (\<lambda>sp.
                   bindM (wsm_get (get_finished_sync_up_to env)) (\<lambda>finished.
                   thenM (whenM (peer_node_id p \<in> sp \<and> peak_height peak > finished)
                            (wsm_do (set_finished_sync_up_to env (peak_height peak))))
                         (wsm_do (new_peak env peak)))))))"

text \<open>
  While the call waits for the low-priority lock, the handlers that are served before it
  run; \<open>others\<close> is what they do to the node. After that the call runs to its end
  without giving way.
\<close>

definition behind_local_peak :: "peak_msg \<Rightarrow> header_block option \<Rightarrow> bool" where
  "behind_local_peak peak peak_hb =
     (case peak_hb of None \<Rightarrow> False | Some hb \<Rightarrow> peak_weight peak < weight hb)"

definition new_peak_wallet ::
  "'w env \<Rightarrow> nat \<Rightarrow> ('w wallet_node \<Rightarrow> 'w wallet_node) \<Rightarrow> int \<Rightarrow> peak_msg \<Rightarrow> peer \<Rightarrow>
   ('w wallet_node, unit) prog" where
  "new_peak_wallet env fuel others request_time peak p =
     thenM (modify (\<lambda>s. s\<lparr> node_peaks :=
              (node_peaks s)(peer_node_id p \<mapsto> (peak_height peak, peak_header_hash peak)) \<rparr>))
       (let trusted = is_trusted env p in
        bindM (wsm_get (get_peak_block env)) (\<lambda>peak_hb.
        if behind_local_peak peak peak_hb then ret ()
        else thenM (modify others)
            (bindM (wsm_get (get_peak_block env)) (\<lambda>peak_hb.
             if behind_local_peak peak peak_hb then ret ()
             else process_new_peak env fuel request_time peak p trusted))))"

text \<open>
  A sequence of new-peak notifications, each with what the other handlers do while it
  waits and with its request time. An exception of a handler ends that handler only.
\<close>

fun new_peaks ::
  "'w env \<Rightarrow> nat \<Rightarrow> (('w wallet_node \<Rightarrow> 'w wallet_node) \<times> int \<times> peak_msg \<times> peer) list \<Rightarrow>
   'w wallet_node \<Rightarrow> 'w wallet_node option" where
  "new_peaks env fuel [] s = Some s"
| "new_peaks env fuel ((others, request_time, peak, p) # rest) s =
     (case new_peak_wallet env fuel others request_time peak p s of
        None \<Rightarrow> None
      | Some (_, s') \<Rightarrow> new_peaks env fuel rest s')"


section \<open>Statements about runs\<close>

text \<open>What a run leaves behind, and how it ended.\<close>

definition final_node :: "((exn + 'a) \<times> 's) option \<Rightarrow> 's option" where
  "final_node r = map_option snd r"

definition outcome :: "((exn + 'a) \<times> 's) option \<Rightarrow> (exn + 'a) option" where
  "outcome r = map_option fst r"

text \<open>The number of \<open>receive_block\<close> applications in a trace.\<close>

definition receive_block_count :: "event list \<Rightarrow> nat" where
  "receive_block_count evs =
     length (filter (\<lambda>ev. case ev of ReceiveBlock b \<Rightarrow> True | _ \<Rightarrow> False) evs)"

text \<open>
  The wallet judges none of the blocks invalid when \<open>receive_block\<close> is applied to them
  in this order, starting from the wallet state \<open>w\<close>.
\<close>

fun blocks_accepted :: "'w env \<Rightarrow> header_block list \<Rightarrow> 'w \<Rightarrow> bool" where
  "blocks_accepted env [] w = True"
| "blocks_accepted env (b # rest) w =
     (fst (receive_block env b w) \<noteq> INVALID_BLOCK
      \<and> blocks_accepted env rest (snd (receive_block env b w)))"

text \<open>Two calls of \<open>fetch_and_validate_the_weight_proof\<close> in a row.\<close>

definition two_fetches ::
  "'w env \<Rightarrow> peer \<Rightarrow> header_block \<Rightarrow> peer \<Rightarrow> header_block \<Rightarrow>
   ('w wallet_node, (bool \<times> weight_proof option \<times> sub_epoch_summary list \<times> block_record list)
      \<times> (bool \<times> weight_proof option \<times> sub_epoch_summary list \<times> block_record list)) prog" where
  "two_fetches env p1 peak1 p2 peak2 =
     bindM (fetch_and_validate_the_weight_proof env p1 peak1) (\<lambda>r1.
     bindM (fetch_and_validate_the_weight_proof env p2 peak2) (\<lambda>r2. ret (r1, r2)))"

text \<open>
  A property of the node that every run of a method keeps, however the run ends; the
  height up to which the wallet has synced; and what the statement on that height asks of
  the wallet state manager: \<open>get_finished_sync_up_to\<close> reads what
  \<open>set_finished_sync_up_to\<close> wrote, and no other operation that the node calls lowers
  it.
\<close>

definition preserves :: "('s \<Rightarrow> bool) \<Rightarrow> ('s, 'a) prog \<Rightarrow> bool" where
  "preserves P m \<longleftrightarrow> (\<forall>s r s'. P s \<longrightarrow> m s = Some (r, s') \<longrightarrow> P s')"

definition synced_up_to :: "'w env \<Rightarrow> 'w wallet_node \<Rightarrow> int" where
  "synced_up_to env s = get_finished_sync_up_to env (wallet_state_manager s)"

definition sync_height_kept :: "'w env \<Rightarrow> bool" where
  "sync_height_kept env \<longleftrightarrow>
     (\<forall>h w. get_finished_sync_up_to env (set_finished_sync_up_to env h w) = h) \<and>
     (\<forall>b t w. get_finished_sync_up_to env w
                 \<le> get_finished_sync_up_to env (set_peak_block env b t w)) \<and>
     (\<forall>b w. get_finished_sync_up_to env w
               \<le> get_finished_sync_up_to env (snd (receive_block env b w))) \<and>
     (\<forall>h w. get_finished_sync_up_to env w
               \<le> get_finished_sync_up_to env (reorg_rollback env h w)) \<and>
     (\<forall>states peer_id fork_height w. get_finished_sync_up_to env w
               \<le> get_finished_sync_up_to env (new_coin_state env states peer_id fork_height w)) \<and>
     (\<forall>peak w. get_finished_sync_up_to env w
               \<le> get_finished_sync_up_to env (new_peak env peak w)) \<and>
     (\<forall>b w. get_finished_sync_up_to env w
               \<le> get_finished_sync_up_to env (set_sync_mode env b w)) \<and>
     (\<forall>wp records w. get_finished_sync_up_to env w
               \<le> get_finished_sync_up_to env (new_weight_proof env wp records w)) \<and>
     (\<forall>w. get_finished_sync_up_to env w
               \<le> get_finished_sync_up_to env (create_more_puzzle_hashes env w))"

text \<open>The two properties of the node that the statements below follow through a run.\<close>

definition fsu_ge :: "'w env \<Rightarrow> int \<Rightarrow> 'w wallet_node \<Rightarrow> bool" where
  "fsu_ge env c s \<longleftrightarrow> c \<le> synced_up_to env s"

definition race_cache_is ::
  "(bytes32 \<rightharpoonup> coin_state list) \<Rightarrow> (int \<times> bytes32) list \<Rightarrow> 'w wallet_node \<Rightarrow> bool" where
  "race_cache_is rc hashes s \<longleftrightarrow> race_cache s = rc \<and> race_cache_hashes s = hashes"

text \<open>
  A property that neither the trace nor the request caches can change; the validation of a
  coin state changes nothing else.
\<close>

definition ignores_requests :: "('w wallet_node \<Rightarrow> bool) \<Rightarrow> bool" where
  "ignores_requests P \<longleftrightarrow>
     (\<forall>s ev. P s \<longrightarrow> P (s\<lparr> trace := trace s @ [ev] \<rparr>)) \<and>
     (\<forall>s u. P s \<longrightarrow> P (s\<lparr> untrusted_caches := u \<rparr>))"

section \<open>A small wallet state manager and some peers\<close>

text \<open>
  An instance of the collaborators on which the statements below are run: a wallet that
  keeps its peak, the hashes of the blocks it has and the height up to which it has
  synced. It accepts every block as its new peak, judges a weight proof valid when it has
  sub-epochs, and trusts the peer with id 1.
\<close>

record small_wallet =
  sw_peak :: "header_block option"
  sw_known :: "bytes32 list"
  sw_finished :: int

definition small_env :: "small_wallet env" where
  "small_env = \<lparr>
     get_peak_block = sw_peak,
     get_peak_height = (\<lambda>w. case sw_peak w of None \<Rightarrow> - 1 | Some b \<Rightarrow> height b),
     set_peak_block = (\<lambda>b ts w. w\<lparr> sw_peak := Some b \<rparr>),
     contains_block = (\<lambda>w hh. hh \<in> set (sw_known w)),
     height_to_hash = (\<lambda>w h. nat h),
     receive_block = (\<lambda>b w. (OTHER_RESULT, w\<lparr> sw_peak := Some b,
                                            sw_known := header_hash b # sw_known w \<rparr>)),
     get_finished_sync_up_to = sw_finished,
     set_finished_sync_up_to = (\<lambda>h w. w\<lparr> sw_finished := h \<rparr>),
     reorg_rollback = (\<lambda>h w. w),
     new_coin_state = (\<lambda>states peer_id fork_height w. w),
     new_peak = (\<lambda>peak w. w),
     set_sync_mode = (\<lambda>b w. w),
     synced_weight_proof = (\<lambda>w. None),
     new_weight_proof = (\<lambda>wp records w. w),
     get_fork_point = (\<lambda>w old new. 0),
     validate_weight_proof = (\<lambda>w wp. (sub_epochs wp \<noteq> [], 0, [], [])),
     get_coin_record = (\<lambda>w name. None),
     get_all_puzzle_hashes = (\<lambda>w. []),
     get_interested_puzzle_hashes = (\<lambda>w. []),
     create_more_puzzle_hashes = (\<lambda>w. w),
     get_coins_to_check = (\<lambda>w min_height. []),
     get_coins_of_interest = (\<lambda>w. []),
     get_interested_coin_ids = (\<lambda>w. []),
     is_trusted_peer = (\<lambda>peer_id. peer_id = 1),
     full_node_connections = [],
     testing = True,
     WEIGHT_PROOF_RECENT_BLOCKS = 1000,
     filter_coin_states = (\<lambda>states fork_height.
        filter (\<lambda>cs. case created_height cs of None \<Rightarrow> True | Some h \<Rightarrow> h \<le> fork_height) states),
     can_use_peer_request_cache = (\<lambda>cs cache fork_height.
        states_validated cache (puzzle_hash (coin cs)) \<noteq> None \<and> fork_height = None),
     clear_after_height = (\<lambda>h cache. cache),
     validate_block_inclusion = (\<lambda>b p cache w. (Inr True, cache)),
     coin_name = parent_coin_info,
     coin_state_hash = (\<lambda>cs. puzzle_hash (coin cs)),
     weight_proof_hash = (\<lambda>wp. length (recent_chain_data wp)) \<rparr>"

definition hb :: "int \<Rightarrow> int \<Rightarrow> bytes32 \<Rightarrow> bytes32 \<Rightarrow> header_block" where
  "hb h w hh prev =
     \<lparr> height = h, weight = w, header_hash = hh, prev_header_hash = prev,
       foliage_transaction_block =
         Some \<lparr> additions_root = 0, removals_root = 0, timestamp = 1000 \<rparr> \<rparr>"

definition small_node :: "small_wallet wallet_node" where
  "small_node = \<lparr>
     wallet_state_manager = \<lparr> sw_peak = None, sw_known = [], sw_finished = 0 \<rparr>,
     synced_peers = {},
     valid_wp_cache = Map.empty,
     untrusted_caches = Map.empty,
     race_cache = Map.empty,
     race_cache_hashes = [],
     node_peaks = Map.empty,
     local_node_synced = False,
     trace = [] \<rparr>"

text \<open>A peer with the given id that answers nothing and proves nothing.\<close>

definition silent_peer :: "bytes32 \<Rightarrow> peer" where
  "silent_peer peer_id = \<lparr>
     peer_node_id = peer_id,
     request_block_header = (\<lambda>h. None),
     request_header_blocks = (\<lambda>a b. None),
     request_proof_of_weight = (\<lambda>h hh. None),
     register_interest_in_puzzle_hash = (\<lambda>phs min_height. None),
     register_interest_in_coin = (\<lambda>ids min_height. None),
     fetch_last_tx_from_peer = (\<lambda>h. None),
     request_and_validate_additions = (\<lambda>h hh ph root. False),
     request_and_validate_removals = (\<lambda>h hh name root. False) \<rparr>"

text \<open>
  Peers that answer: one with coin states for every subscription, one with a weight proof,
  one with the headers of a chain, and one that also proves every addition and removal.
\<close>

definition answering_peer :: "bytes32 \<Rightarrow> coin_state list \<Rightarrow> peer" where
  "answering_peer peer_id states =
     (silent_peer peer_id)\<lparr> register_interest_in_puzzle_hash := (\<lambda>phs min_height. Some states),
                             register_interest_in_coin := (\<lambda>ids min_height. Some states) \<rparr>"

definition wp_peer :: "bytes32 \<Rightarrow> weight_proof \<Rightarrow> peer" where
  "wp_peer peer_id wp = (silent_peer peer_id)\<lparr> request_proof_of_weight := (\<lambda>h hh. Some wp) \<rparr>"

definition header_peer :: "bytes32 \<Rightarrow> (int \<rightharpoonup> header_block) \<Rightarrow> peer" where
  "header_peer peer_id chain =
     (silent_peer peer_id)\<lparr> request_block_header := chain,
                             request_header_blocks := (\<lambda>a b. map_option (\<lambda>x. [x]) (chain a)),
                             fetch_last_tx_from_peer := chain \<rparr>"

definition proving_peer :: "bytes32 \<Rightarrow> (int \<rightharpoonup> header_block) \<Rightarrow> peer" where
  "proving_peer peer_id chain =
     (header_peer peer_id chain)\<lparr> request_and_validate_additions := (\<lambda>h hh ph root. True),
                                   request_and_validate_removals := (\<lambda>h hh name root. True) \<rparr>"

text \<open>A coin state of a coin with the given puzzle hash, and a weight proof for a peak.\<close>

definition cs_at :: "bytes32 \<Rightarrow> int option \<Rightarrow> coin_state" where
  "cs_at ph created =
     \<lparr> coin = \<lparr> parent_coin_info = 0, puzzle_hash = ph, amount = 1 \<rparr>,
       spent_height = None, created_height = created \<rparr>"

definition proof_for :: "header_block \<Rightarrow> nat list \<Rightarrow> weight_proof" where
  "proof_for peak ses = \<lparr> sub_epochs = ses, recent_chain_data = [peak] \<rparr>"

section \<open>Scenarios\<close>

text \<open>
  A semaphore with two active and one waiting slot, fresh and with three entrants.
\<close>

definition sem_2_1 :: limited_semaphore where
  "sem_2_1 = \<lparr> semaphore_value = 2, available_count = 3, active_tasks = {}, entrants = [] \<rparr>"

definition sem_2_1_full :: limited_semaphore where
  "sem_2_1_full = \<lparr> semaphore_value = 0, available_count = 0, active_tasks = {1, 2},
      entrants = [(1, Active), (2, Active), (3, Waiting)] \<rparr>"

text \<open>The same semaphore while task 1 is alone in its guarded section.\<close>

definition sem_2_1_one :: limited_semaphore where
  "sem_2_1_one = \<lparr> semaphore_value = 1, available_count = 2, active_tasks = {1},
      entrants = [(1, Active)] \<rparr>"

text \<open>Coin states arrive for four header hashes at the heights 10, 100, 150 and 260.\<close>

definition four_inserts :: "(small_wallet wallet_node, unit) prog" where
  "four_inserts =
     thenM (add_state_to_race_cache 1 10 (cs_at 1 (Some 10)))
    (thenM (add_state_to_race_cache 2 100 (cs_at 2 (Some 100)))
    (thenM (add_state_to_race_cache 3 150 (cs_at 3 (Some 150)))
           (add_state_to_race_cache 4 260 (cs_at 4 (Some 260)))))"

text \<open>
  A wallet whose peak is at height 100 and a peer whose chain leaves it after height 99
  and reaches height 103.
\<close>

definition fork_node :: "small_wallet wallet_node" where
  "fork_node = small_node\<lparr>
     wallet_state_manager :=
       \<lparr> sw_peak = Some (hb 100 1000 100 99), sw_known = [100, 99], sw_finished = 100 \<rparr>,
     synced_peers := {2} \<rparr>"

definition fork_peer :: peer where
  "fork_peer = header_peer 2
     [100 \<mapsto> hb 100 1000 1100 99, 101 \<mapsto> hb 101 1010 1101 1100,
      102 \<mapsto> hb 102 1020 1102 1101, 103 \<mapsto> hb 103 1030 1103 1102]"

text \<open>
  A wallet whose peak has weight 50, a trusted peer that it has synced to and whose peak has
  the same weight, a lighter peak, and a heavier peak that another handler sets while a
  call waits for the lock.
\<close>

definition tie_node :: "small_wallet wallet_node" where
  "tie_node = small_node\<lparr>
     wallet_state_manager :=
       \<lparr> sw_peak = Some (hb 10 50 66 65), sw_known = [66, 65], sw_finished = 0 \<rparr>,
     synced_peers := {1} \<rparr>"

definition tie_peer :: peer where
  "tie_peer = header_peer 1 [10 \<mapsto> hb 10 50 77 65]"

definition tie_peak :: peak_msg where
  "tie_peak = \<lparr> peak_header_hash = 77, peak_height = 10, peak_weight = 50,
                 fork_point_with_previous_peak = 9 \<rparr>"

definition tie_node_after :: "small_wallet wallet_node" where
  "tie_node_after = tie_node\<lparr>
       wallet_state_manager :=
         \<lparr> sw_peak = Some (hb 10 50 77 65), sw_known = [66, 65], sw_finished = 10 \<rparr>,
       node_peaks := [1 \<mapsto> (10, 77)] \<rparr>"

definition lighter_peak :: peak_msg where
  "lighter_peak = \<lparr> peak_header_hash = 55, peak_height = 9, peak_weight = 40,
                     fork_point_with_previous_peak = 8 \<rparr>"

definition heavier_arrives :: "small_wallet wallet_node \<Rightarrow> small_wallet wallet_node" where
  "heavier_arrives s = s\<lparr> wallet_state_manager :=
     (wallet_state_manager s)\<lparr> sw_peak := Some (hb 11 60 88 66) \<rparr> \<rparr>"

text \<open>
  A node whose race cache holds one coin state under the hash of height 5, and an untrusted
  peer that can prove it.
\<close>

definition raced_node :: "small_wallet wallet_node" where
  "raced_node = small_node\<lparr> race_cache := [5 \<mapsto> [cs_at 7 (Some 5)]] \<rparr>"

definition raced_peer :: peer where
  "raced_peer = proving_peer 2 [5 \<mapsto> hb 5 50 9 8]"

section \<open>Properties of the LimitedSemaphore\<close>

lemma length_remove_nth: "i < length xs \<Longrightarrow> length (remove_nth i xs) = length xs - 1"
  by (simp add: remove_nth_def)

lemma filter_remove_nth_Active:
  assumes "i < length xs" "snd (xs ! i) = Active"
  shows "length (filter (\<lambda>e. snd e = Active) xs) = Suc (length (filter (\<lambda>e. snd e = Active) (remove_nth i xs)))"
    and "set (filter (\<lambda>e. snd e = Active) xs) = insert (xs ! i) (set (filter (\<lambda>e. snd e = Active) (remove_nth i xs)))"
proof -
  have xs: "xs = take i xs @ xs ! i # drop (Suc i) xs" using assms(1) by (rule id_take_nth_drop)
  have f: "filter (\<lambda>e. snd e = Active) xs =
      filter (\<lambda>e. snd e = Active) (take i xs) @ xs ! i # filter (\<lambda>e. snd e = Active) (drop (Suc i) xs)"
    using assms(2) by (subst xs) simp
  show "length (filter (\<lambda>e. snd e = Active) xs) = Suc (length (filter (\<lambda>e. snd e = Active) (remove_nth i xs)))"
    by (simp add: f remove_nth_def)
  show "set (filter (\<lambda>e. snd e = Active) xs) = insert (xs ! i) (set (filter (\<lambda>e. snd e = Active) (remove_nth i xs)))"
    by (simp add: f remove_nth_def)
qed

lemma filter_remove_nth_Waiting:
  assumes "i < length xs" "snd (xs ! i) = Waiting"
  shows "filter (\<lambda>e. snd e = Active) (remove_nth i xs) = filter (\<lambda>e. snd e = Active) xs"
proof -
  have xs: "xs = take i xs @ xs ! i # drop (Suc i) xs" using assms(1) by (rule id_take_nth_drop)
  have "filter (\<lambda>e. snd e = Active) xs =
      filter (\<lambda>e. snd e = Active) (take i xs) @ filter (\<lambda>e. snd e = Active) (drop (Suc i) xs)"
    using assms(2) by (subst xs) simp
  then show ?thesis by (simp add: remove_nth_def)
qed

lemma filter_update_Active:
  assumes "i < length xs" "snd (xs ! i) = Waiting"
  shows "length (filter (\<lambda>e. snd e = Active) (xs[i := (t, Active)])) = Suc (length (filter (\<lambda>e. snd e = Active) xs))"
    and "set (filter (\<lambda>e. snd e = Active) (xs[i := (t, Active)])) = insert (t, Active) (set (filter (\<lambda>e. snd e = Active) xs))"
proof -
  have xs: "xs = take i xs @ xs ! i # drop (Suc i) xs" using assms(1) by (rule id_take_nth_drop)
  have up: "xs[i := (t, Active)] = take i xs @ (t, Active) # drop (Suc i) xs"
    using assms(1) by (rule upd_conv_take_nth_drop)
  have f: "filter (\<lambda>e. snd e = Active) xs = filter (\<lambda>e. snd e = Active) (take i xs) @ filter (\<lambda>e. snd e = Active) (drop (Suc i) xs)"
    using assms(2) by (subst xs) simp
  show "length (filter (\<lambda>e. snd e = Active) (xs[i := (t, Active)])) = Suc (length (filter (\<lambda>e. snd e = Active) xs))"
    by (simp add: up f)
  show "set (filter (\<lambda>e. snd e = Active) (xs[i := (t, Active)])) = insert (t, Active) (set (filter (\<lambda>e. snd e = Active) xs))"
    by (simp add: up f)
qed

lemma sem_inv_create:
  "0 \<le> al + wl \<Longrightarrow> create al wl = Inr s \<Longrightarrow> sem_inv al wl s"
  by (auto simp: create_def sem_inv_def active_entrants_def split: if_splits)

lemma sem_inv_acquire:
  assumes "sem_inv al wl s" "acquire t s = Inr s'"
  shows "sem_inv al wl s'"
proof -
  from assms(2) have a: "\<not> available_count s < 1"
    and s': "s' = s\<lparr> available_count := available_count s - 1, entrants := entrants s @ [(t, Waiting)] \<rparr>"
    by (auto simp: acquire_def split: if_splits)
  have "active_entrants s' = active_entrants s" by (simp add: s' active_entrants_def)
  then show ?thesis using assms(1) a by (simp add: sem_inv_def s')
qed

lemma sem_inv_grant:
  assumes "sem_inv al wl s" "grant i s = Some s'"
  shows "sem_inv al wl s'"
proof -
  from assms(2) have i: "i < length (entrants s)" and w: "snd (entrants s ! i) = Waiting"
    and f: "semaphore_value s' = semaphore_value s - 1"
      "available_count s' = available_count s"
      "active_tasks s' = insert (fst (entrants s ! i)) (active_tasks s)"
      "entrants s' = (entrants s)[i := (fst (entrants s ! i), Active)]"
    by (auto simp: grant_def split: if_splits)
  have len: "length (active_entrants s') = Suc (length (active_entrants s))"
    and st: "set (active_entrants s') = insert (fst (entrants s ! i), Active) (set (active_entrants s))"
    using filter_update_Active[OF i w] by (simp_all add: f active_entrants_def)
  have "active_tasks s' \<subseteq> fst ` set (active_entrants s')"
    using assms(1) by (auto simp: st f sem_inv_def)
  then show ?thesis using assms(1) len by (simp add: sem_inv_def f)
qed

lemma sem_inv_leave:
  assumes "sem_inv al wl s" "leave i p s = Some (r, s')"
  shows "sem_inv al wl s'"
proof -
  from assms(2) have i: "i < length (entrants s)" and a: "snd (entrants s ! i) = Active"
    and f: "semaphore_value s' = semaphore_value s + 1"
      "available_count s' = available_count s + 1"
      "active_tasks s' = active_tasks s - {fst (entrants s ! i)}"
      "entrants s' = remove_nth i (entrants s)"
    by (auto simp: leave_def split: if_splits)
  have len: "length (active_entrants s) = Suc (length (active_entrants s'))"
    and st: "set (active_entrants s) = insert (entrants s ! i) (set (active_entrants s'))"
    using filter_remove_nth_Active[OF i a] by (simp_all add: f active_entrants_def)
  have "active_tasks s' \<subseteq> fst ` set (active_entrants s')"
    using assms(1) by (auto simp: st f sem_inv_def)
  then show ?thesis using assms(1) len i by (simp add: sem_inv_def f length_remove_nth)
qed

lemma sem_inv_cancel:
  assumes "sem_inv al wl s" "cancel i s = Some s'"
  shows "sem_inv al wl s'"
proof -
  from assms(2) have i: "i < length (entrants s)" and w: "snd (entrants s ! i) = Waiting"
    and f: "semaphore_value s' = semaphore_value s"
      "available_count s' = available_count s + 1"
      "active_tasks s' = active_tasks s - {fst (entrants s ! i)}"
      "entrants s' = remove_nth i (entrants s)"
    by (auto simp: cancel_def split: if_splits)
  have ae: "active_entrants s' = active_entrants s"
    using filter_remove_nth_Waiting[OF i w] by (simp add: f active_entrants_def)
  have "active_tasks s' \<subseteq> fst ` set (active_entrants s')"
    using assms(1) by (auto simp: ae f sem_inv_def)
  then show ?thesis using assms(1) i by (simp add: sem_inv_def f ae length_remove_nth)
qed

lemma sem_inv_run:
  "sem_inv al wl s \<Longrightarrow> run evs s = Some s' \<Longrightarrow> sem_inv al wl s'"
proof (induction evs s rule: run.induct)
  case (1 s)
  then show ?case by simp
next
  case (2 t es s)
  then show ?case by (auto split: sum.splits dest: sem_inv_acquire)
next
  case (3 i es s)
  then show ?case by (auto split: option.splits dest: sem_inv_grant)
next
  case (4 i p es s)
  then show ?case by (auto split: option.splits prod.splits dest: sem_inv_leave)
next
  case (5 i es s)
  then show ?case by (auto split: option.splits dest: sem_inv_cancel)
qed

lemma sem_inv_reachable:
  "0 \<le> al + wl \<Longrightarrow> create al wl = Inr s0 \<Longrightarrow> run evs s0 = Some s \<Longrightarrow> sem_inv al wl s"
  by (blast intro: sem_inv_run sem_inv_create)

text \<open>
  C4: on a semaphore made by \<open>create\<close> with limits whose sum is not negative, after any
  history, \<open>acquire\<close> raises \<open>LimitedSemaphoreFullError\<close> exactly when the number of
  outstanding entrants (active and waiting) equals \<open>active_limit + waiting_limit\<close>; it
  raises at once, without becoming an entrant, and otherwise becomes a waiting entrant.
  After any entrant has left a full semaphore, by ending its guarded section or by being
  cancelled while it waits, the next \<open>acquire\<close> succeeds. With limits 2 and 1 the fourth
  entrant is refused while three are outstanding.
\<close>

theorem acquire_full_iff:
  assumes "0 \<le> active_limit + waiting_limit"
    and "create active_limit waiting_limit = Inr s0"
    and "run evs s0 = Some s"
  shows "(acquire t s = Inl LimitedSemaphoreFullError \<longleftrightarrow>
            int (length (entrants s)) = active_limit + waiting_limit) \<and>
         (acquire t s \<noteq> Inl LimitedSemaphoreFullError \<longrightarrow>
            (\<exists>s'. acquire t s = Inr s' \<and> entrants s' = entrants s @ [(t, Waiting)])) \<and>
         (\<forall>i p r s1. leave i p s = Some (r, s1) \<longrightarrow> (\<exists>s2. acquire t s1 = Inr s2)) \<and>
         (\<forall>i s1. cancel i s = Some s1 \<longrightarrow> (\<exists>s2. acquire t s1 = Inr s2))"
proof -
  have inv: "sem_inv active_limit waiting_limit s"
    using assms by (rule sem_inv_reachable)
  have iff: "acquire t s = Inl LimitedSemaphoreFullError \<longleftrightarrow>
            int (length (entrants s)) = active_limit + waiting_limit"
    using inv by (auto simp: acquire_def sem_inv_def)
  have ok: "acquire t s \<noteq> Inl LimitedSemaphoreFullError \<longrightarrow>
            (\<exists>s'. acquire t s = Inr s' \<and> entrants s' = entrants s @ [(t, Waiting)])"
    by (simp add: acquire_def)
  have lv: "\<exists>s2. acquire t s1 = Inr s2" if "leave i p s = Some (r, s1)" for i p r s1
    using that inv by (auto simp: leave_def acquire_def sem_inv_def split: if_splits)
  have cn: "\<exists>s2. acquire t s1 = Inr s2" if "cancel i s = Some s1" for i s1
    using that inv by (auto simp: cancel_def acquire_def sem_inv_def split: if_splits)
  from lv have lv': "\<forall>i p r s1. leave i p s = Some (r, s1) \<longrightarrow> (\<exists>s2. acquire t s1 = Inr s2)"
    by blast
  from cn have cn': "\<forall>i s1. cancel i s = Some s1 \<longrightarrow> (\<exists>s2. acquire t s1 = Inr s2)"
    by blast
  from iff ok lv' cn' show ?thesis by (intro conjI)
qed

lemma create_2_1: "create 2 1 = Inr sem_2_1"
  by (simp add: create_def sem_2_1_def)

lemma run_2_1_full:
  "run [Acquire 1, Grant 0, Acquire 2, Grant 1, Acquire 3] sem_2_1 = Some sem_2_1_full"
  by (simp add: sem_2_1_def sem_2_1_full_def acquire_def grant_def insert_commute)

theorem acquire_full_iff_witness:
  "create 2 1 = Inr sem_2_1 \<and>
   run [Acquire 1, Grant 0, Acquire 2, Grant 1, Acquire 3] sem_2_1 = Some sem_2_1_full \<and>
   length (entrants sem_2_1_full) = 3 \<and>
   acquire 4 sem_2_1_full = Inl LimitedSemaphoreFullError \<and>
   (\<exists>r s1 s2. leave 0 BodyReturned sem_2_1_full = Some (r, s1) \<and> acquire 4 s1 = Inr s2) \<and>
   (\<exists>s1 s2. cancel 2 sem_2_1_full = Some s1 \<and> acquire 4 s1 = Inr s2)"
proof -
  have l: "leave 0 BodyReturned sem_2_1_full \<noteq> None" by (simp add: leave_def sem_2_1_full_def)
  have c: "cancel 2 sem_2_1_full \<noteq> None" by (simp add: cancel_def sem_2_1_full_def)
  have n: "int (length (entrants sem_2_1_full)) = 2 + 1" by (simp add: sem_2_1_full_def)
  show ?thesis
    using acquire_full_iff [of 2 1 sem_2_1 "[Acquire 1, Grant 0, Acquire 2, Grant 1, Acquire 3]"
        sem_2_1_full 4] create_2_1 run_2_1_full l c n
    by auto
qed

lemma acquire_grant_leave_pair:
  "\<forall>t s1 s2 p r s3. acquire t s = Inr s1 \<and>
      grant (length (entrants s)) s1 = Some s2 \<and>
      leave (length (entrants s)) p s2 = Some (r, s3)
      \<longrightarrow> s3 = s\<lparr> active_tasks := active_tasks s - {t} \<rparr>"
  by (cases s) (auto simp: acquire_def grant_def leave_def remove_nth_def split: if_splits)

lemma acquire_cancel_pair:
  "\<forall>t s1 s3. acquire t s = Inr s1 \<and>
      cancel (length (entrants s)) s1 = Some s3
      \<longrightarrow> s3 = s\<lparr> active_tasks := active_tasks s - {t} \<rparr>"
  by (cases s) (auto simp: acquire_def cancel_def remove_nth_def split: if_splits)

lemma not_active_unchanged:
  "t \<notin> active_tasks s \<Longrightarrow> s\<lparr> active_tasks := active_tasks s - {t} \<rparr> = s"
  by (cases s) simp

lemma sem_reachable_bounds:
  assumes "0 \<le> active_limit + waiting_limit"
    and "create active_limit waiting_limit = Inr s0"
    and "run evs s0 = Some s"
  shows "0 \<le> available_count s \<and> available_count s \<le> active_limit + waiting_limit"
    and "entrants s = [] \<longrightarrow> s = s0"
proof -
  have inv: "sem_inv active_limit waiting_limit s"
    using assms by (rule sem_inv_reachable)
  show "0 \<le> available_count s \<and> available_count s \<le> active_limit + waiting_limit"
    using inv by (simp add: sem_inv_def)
  show "entrants s = [] \<longrightarrow> s = s0"
  proof
    assume e: "entrants s = []"
    with inv have "semaphore_value s = active_limit"
      "available_count s = active_limit + waiting_limit" "active_tasks s = {}"
      by (simp_all add: sem_inv_def active_entrants_def)
    with e assms(2) show "s = s0"
      by (cases s) (auto simp: create_def split: if_splits)
  qed
qed

text \<open>
  C9, as amended: on a semaphore made by \<open>create\<close> with limits whose sum is not negative,
  after any history, \<open>0 \<le> _available_count \<le> active_limit + waiting_limit\<close>; every
  entrant in its guarded section can leave it, and leaving, by return or by exception, adds
  exactly one to \<open>_available_count\<close> and removes the task from \<open>_active_tasks\<close>, the
  exception being passed on. An \<open>acquire\<close> followed by the leaving of that entrant
  (after a grant, or by cancellation while it waits) gives back the state before the
  \<open>acquire\<close> except that the task is no longer in \<open>_active_tasks\<close>: the counter, the
  inner semaphore and the other entrants are as before, and the whole state is as before
  when the task was not in \<open>_active_tasks\<close>, that is, when it did not enter again from
  inside its own guarded section. Whenever all entrants have left, the semaphore is in the
  state in which it was created.
\<close>

theorem available_count_balanced:
  assumes "0 \<le> active_limit + waiting_limit"
    and "create active_limit waiting_limit = Inr s0"
    and "run evs s0 = Some s"
  shows "0 \<le> available_count s \<and> available_count s \<le> active_limit + waiting_limit \<and>
         (\<forall>i p r s'. leave i p s = Some (r, s') \<longrightarrow>
            available_count s' = available_count s + 1 \<and>
            fst (entrants s ! i) \<notin> active_tasks s' \<and>
            r = (case p of BodyReturned \<Rightarrow> Inr () | BodyRaised e \<Rightarrow> Inl e)) \<and>
         (\<forall>i. i < length (entrants s) \<and> snd (entrants s ! i) = Active \<longrightarrow>
            (\<forall>p. leave i p s \<noteq> None)) \<and>
         (\<forall>t s1 s2 p r s3. acquire t s = Inr s1 \<and>
            grant (length (entrants s)) s1 = Some s2 \<and>
            leave (length (entrants s)) p s2 = Some (r, s3)
            \<longrightarrow> s3 = s\<lparr> active_tasks := active_tasks s - {t} \<rparr>
                \<and> (t \<notin> active_tasks s \<longrightarrow> s3 = s)) \<and>
         (\<forall>t s1 s3. acquire t s = Inr s1 \<and>
            cancel (length (entrants s)) s1 = Some s3
            \<longrightarrow> s3 = s\<lparr> active_tasks := active_tasks s - {t} \<rparr>
                \<and> (t \<notin> active_tasks s \<longrightarrow> s3 = s)) \<and>
         (entrants s = [] \<longrightarrow> s = s0)"
proof -
  note a = sem_reachable_bounds(1) [OF assms]
  note c = sem_reachable_bounds(2) [OF assms]
  have b: "\<forall>i p r s'. leave i p s = Some (r, s') \<longrightarrow>
            available_count s' = available_count s + 1 \<and>
            fst (entrants s ! i) \<notin> active_tasks s' \<and>
            r = (case p of BodyReturned \<Rightarrow> Inr () | BodyRaised e \<Rightarrow> Inl e)"
    by (auto simp: leave_def split: if_splits)
  have b': "\<forall>i. i < length (entrants s) \<and> snd (entrants s ! i) = Active \<longrightarrow>
            (\<forall>p. leave i p s \<noteq> None)"
    by (simp add: leave_def)
  have d: "\<forall>t s1 s2 p r s3. acquire t s = Inr s1 \<and>
            grant (length (entrants s)) s1 = Some s2 \<and>
            leave (length (entrants s)) p s2 = Some (r, s3)
            \<longrightarrow> s3 = s\<lparr> active_tasks := active_tasks s - {t} \<rparr>
                \<and> (t \<notin> active_tasks s \<longrightarrow> s3 = s)"
    using acquire_grant_leave_pair [of s] not_active_unchanged [of _ s] by metis
  have e: "\<forall>t s1 s3. acquire t s = Inr s1 \<and>
            cancel (length (entrants s)) s1 = Some s3
            \<longrightarrow> s3 = s\<lparr> active_tasks := active_tasks s - {t} \<rparr>
                \<and> (t \<notin> active_tasks s \<longrightarrow> s3 = s)"
    using acquire_cancel_pair [of s] not_active_unchanged [of _ s] by metis
  from a have a1: "0 \<le> available_count s"
    and a2: "available_count s \<le> active_limit + waiting_limit" by simp_all
  show ?thesis
    by (intro conjI) (fact a1, fact a2, fact b, fact b', fact d, fact e, fact c)
qed

theorem available_count_balanced_witness:
  "create 2 1 = Inr sem_2_1 \<and>
   run [Acquire 1, Grant 0, Acquire 2, Grant 1, Acquire 3] sem_2_1 = Some sem_2_1_full \<and>
   available_count sem_2_1_full = 0 \<and>
   (\<exists>s'. leave 1 (BodyRaised RuntimeError) sem_2_1_full = Some (Inl RuntimeError, s') \<and>
      available_count s' = 1 \<and> 2 \<notin> active_tasks s') \<and>
   run [Acquire 1, Grant 0] sem_2_1 = Some sem_2_1_one \<and>
   run [Acquire 2, Grant 1, Leave 1 (BodyRaised ValueError)] sem_2_1_one = Some sem_2_1_one \<and>
   run [Acquire 1, Grant 0, Acquire 1, Grant 1, Leave 1 (BodyRaised ValueError), Acquire 2,
        Cancel 1, Leave 0 BodyReturned] sem_2_1 = Some sem_2_1"
proof -
  have nn: "(0::int) \<le> 2 + 1" by simp
  obtain r s' where l: "leave 1 (BodyRaised RuntimeError) sem_2_1_full = Some (r, s')"
    by (simp add: leave_def sem_2_1_full_def)
  have a: "available_count sem_2_1_full = 0" by (simp add: sem_2_1_full_def)
  have e: "fst (entrants sem_2_1_full ! 1) = 2" by (simp add: sem_2_1_full_def)
  from available_count_balanced [OF nn create_2_1 run_2_1_full]
  have "available_count s' = available_count sem_2_1_full + 1 \<and>
        fst (entrants sem_2_1_full ! 1) \<notin> active_tasks s' \<and>
        r = (case BodyRaised RuntimeError of BodyReturned \<Rightarrow> Inr () | BodyRaised e \<Rightarrow> Inl e)"
    using l by blast
  then have l': "leave 1 (BodyRaised RuntimeError) sem_2_1_full = Some (Inl RuntimeError, s') \<and>
      available_count s' = 1 \<and> 2 \<notin> active_tasks s'"
    using l a e by simp
  have one: "run [Acquire 1, Grant 0] sem_2_1 = Some sem_2_1_one"
    by (simp add: sem_2_1_def sem_2_1_one_def acquire_def grant_def)
  obtain s1 s2 r3 s3 where pair: "acquire 2 sem_2_1_one = Inr s1"
    "grant (length (entrants sem_2_1_one)) s1 = Some s2"
    "leave (length (entrants sem_2_1_one)) (BodyRaised ValueError) s2 = Some (r3, s3)"
    by (simp add: sem_2_1_one_def acquire_def grant_def leave_def)
  have na: "2 \<notin> active_tasks sem_2_1_one" by (simp add: sem_2_1_one_def)
  have "s3 = sem_2_1_one"
    using available_count_balanced [OF nn create_2_1 one] pair na by blast
  moreover have "length (entrants sem_2_1_one) = 1" by (simp add: sem_2_1_one_def)
  ultimately have p': "run [Acquire 2, Grant 1, Leave 1 (BodyRaised ValueError)] sem_2_1_one
      = Some sem_2_1_one"
    using pair by simp
  obtain s where s: "run [Acquire 1, Grant 0, Acquire 1, Grant 1, Leave 1 (BodyRaised ValueError),
        Acquire 2, Cancel 1, Leave 0 BodyReturned] sem_2_1 = Some s" "entrants s = []"
    by (simp add: sem_2_1_def acquire_def grant_def leave_def cancel_def remove_nth_def)
  have "s = sem_2_1"
    using available_count_balanced [OF nn create_2_1 s(1)] s(2) by blast
  with s(1) have r': "run [Acquire 1, Grant 0, Acquire 1, Grant 1, Leave 1 (BodyRaised ValueError),
        Acquire 2, Cancel 1, Leave 0 BodyReturned] sem_2_1 = Some sem_2_1" by simp
  from create_2_1 run_2_1_full a l' one p' r' show ?thesis by blast
qed

text \<open>
  C9 as stated fails: task 1 is in its guarded section and acquires again; when the inner
  section ends, the task is gone from \<open>_active_tasks\<close> although its outer section still
  runs, so this balanced pair does not leave the semaphore as it was.
\<close>

theorem reentrant_pair_changes_active_tasks:
  "create 2 1 = Inr sem_2_1 \<and>
   run [Acquire 1, Grant 0] sem_2_1 = Some sem_2_1_one \<and>
   run [Acquire 1, Grant 1, Leave 1 BodyReturned] sem_2_1_one
     = Some (sem_2_1_one\<lparr> active_tasks := {} \<rparr>) \<and>
   entrants (sem_2_1_one\<lparr> active_tasks := {} \<rparr>) = [(1, Active)] \<and>
   sem_2_1_one\<lparr> active_tasks := {} \<rparr> \<noteq> sem_2_1_one"
  by (simp add: create_def sem_2_1_def sem_2_1_one_def acquire_def grant_def leave_def
      remove_nth_def)

section \<open>Properties of the wallet node\<close>

lemmas prog_defs = ret_def raise_def bindM_def thenM_def gets_def modify_def whenM_def
  try_except_def lift_result_def wsm_do_def wsm_get_def log_event_def peer_close_def
  out_of_fuel_def

subsection \<open>The race cache\<close>

text \<open>
  Nothing appends to \<open>race_cache_hashes\<close>, so while the list is empty, as it is from the
  start, \<open>add_state_to_race_cache\<close> removes nothing and only stores the coin state.
\<close>

lemma add_state_no_hashes:
  assumes "race_cache_hashes s = []"
  shows "add_state_to_race_cache hh h cs s =
           Some (Inr (), s\<lparr> race_cache := (race_cache s)(hh \<mapsto>
              List.insert cs (case race_cache s hh of None \<Rightarrow> [] | Some states \<Rightarrow> states)) \<rparr>)"
  using assms by (cases s) (auto simp: add_state_to_race_cache_def prog_defs split: option.splits)

text \<open>
  C5: \<open>add_state_to_race_cache\<close> is to evict the entries that are 100 or more below the
  inserted height and to list every key once in \<open>race_cache_hashes\<close>. Run on the
  inserts at the heights 10, 100, 150 and 260 into an empty cache, the code leaves the
  list empty and keeps all four entries, those at the heights 10, 100 and 150 included.
\<close>

theorem race_cache_keeps_old_entries:
  "outcome (four_inserts small_node) = Some (Inr ()) \<and>
   map_option race_cache_hashes (final_node (four_inserts small_node)) = Some [] \<and>
   map_option race_cache (final_node (four_inserts small_node))
     = Some [1 \<mapsto> [cs_at 1 (Some 10)], 2 \<mapsto> [cs_at 2 (Some 100)],
             3 \<mapsto> [cs_at 3 (Some 150)], 4 \<mapsto> [cs_at 4 (Some 260)]]"
  by (simp add: outcome_def final_node_def four_inserts_def small_node_def
      add_state_to_race_cache_def prog_defs)

subsection \<open>Subscriptions\<close>

text \<open>
  C10: for \<open>subscribe_to_phs\<close> and for \<open>subscribe_to_coin_updates\<close>: when the peer
  answers, an untrusted peer with \<open>syncing = False\<close> and no \<open>fork_height\<close> makes the
  call raise \<open>AssertionError\<close>, with a \<open>fork_height\<close> the call returns
  \<open>filter_coin_states\<close> of the answer, and a trusted peer or \<open>syncing\<close> being
  \<open>None\<close> or \<open>True\<close> makes it return the answer as it is; when the peer does not
  answer, the call returns the empty list. The node is left as it was.
\<close>

theorem subscribe_filters_when_not_syncing:
  "(\<forall>states. register_interest_in_puzzle_hash p phs min_height = Some states \<longrightarrow>
      (\<not> is_trusted env p \<and> syncing = Some False \<and> fork_height = None \<longrightarrow>
         subscribe_to_phs env phs p syncing min_height fork_height s = Some (Inl AssertionError, s)) \<and>
      (\<forall>fh. \<not> is_trusted env p \<and> syncing = Some False \<and> fork_height = Some fh \<longrightarrow>
         subscribe_to_phs env phs p syncing min_height fork_height s
           = Some (Inr (filter_coin_states env states fh), s)) \<and>
      (is_trusted env p \<or> syncing = None \<or> syncing = Some True \<longrightarrow>
         subscribe_to_phs env phs p syncing min_height fork_height s = Some (Inr states, s))) \<and>
   (register_interest_in_puzzle_hash p phs min_height = None \<longrightarrow>
      subscribe_to_phs env phs p syncing min_height fork_height s = Some (Inr [], s)) \<and>
   (\<forall>states. register_interest_in_coin p ids min_height = Some states \<longrightarrow>
      (\<not> is_trusted env p \<and> syncing = Some False \<and> fork_height = None \<longrightarrow>
         subscribe_to_coin_updates env ids p syncing min_height fork_height s
           = Some (Inl AssertionError, s)) \<and>
      (\<forall>fh. \<not> is_trusted env p \<and> syncing = Some False \<and> fork_height = Some fh \<longrightarrow>
         subscribe_to_coin_updates env ids p syncing min_height fork_height s
           = Some (Inr (filter_coin_states env states fh), s)) \<and>
      (is_trusted env p \<or> syncing = None \<or> syncing = Some True \<longrightarrow>
         subscribe_to_coin_updates env ids p syncing min_height fork_height s
           = Some (Inr states, s))) \<and>
   (register_interest_in_coin p ids min_height = None \<longrightarrow>
      subscribe_to_coin_updates env ids p syncing min_height fork_height s = Some (Inr [], s))"
  by (auto simp: subscribe_to_phs_def subscribe_to_coin_updates_def ret_def raise_def)

theorem subscribe_filters_when_not_syncing_witness:
  "subscribe_to_phs small_env [7] (answering_peer 2 [cs_at 7 (Some 5), cs_at 7 (Some 9)])
     (Some False) 0 None small_node = Some (Inl AssertionError, small_node) \<and>
   subscribe_to_phs small_env [7] (answering_peer 2 [cs_at 7 (Some 5), cs_at 7 (Some 9)])
     (Some False) 0 (Some 6) small_node = Some (Inr [cs_at 7 (Some 5)], small_node) \<and>
   subscribe_to_coin_updates small_env [7] (answering_peer 2 [cs_at 7 (Some 5), cs_at 7 (Some 9)])
     (Some True) 0 None small_node = Some (Inr [cs_at 7 (Some 5), cs_at 7 (Some 9)], small_node) \<and>
   subscribe_to_coin_updates small_env [7] (answering_peer 1 [cs_at 7 (Some 5), cs_at 7 (Some 9)])
     (Some False) 0 None small_node = Some (Inr [cs_at 7 (Some 5), cs_at 7 (Some 9)], small_node) \<and>
   subscribe_to_phs small_env [7] (silent_peer 2) (Some False) 0 None small_node
     = Some (Inr [], small_node)"
proof -
  let ?css = "[cs_at 7 (Some 5), cs_at 7 (Some 9)]"
  have u: "\<not> is_trusted small_env (answering_peer 2 ?css)"
    "is_trusted small_env (answering_peer 1 ?css)"
    by (simp_all add: is_trusted_def small_env_def answering_peer_def silent_peer_def)
  have r: "register_interest_in_puzzle_hash (answering_peer 2 ?css) [7] 0 = Some ?css"
    "register_interest_in_coin (answering_peer 2 ?css) [7] 0 = Some ?css"
    "register_interest_in_coin (answering_peer 1 ?css) [7] 0 = Some ?css"
    "register_interest_in_puzzle_hash (silent_peer 2) [7] 0 = None"
    by (simp_all add: answering_peer_def silent_peer_def)
  have f: "filter_coin_states small_env ?css 6 = [cs_at 7 (Some 5)]"
    by (simp add: small_env_def cs_at_def)
  show ?thesis
    using subscribe_filters_when_not_syncing [of "answering_peer 2 ?css" "[7]" 0 small_env
        "Some False" None small_node "[7]"]
      subscribe_filters_when_not_syncing [of "answering_peer 2 ?css" "[7]" 0 small_env
        "Some False" "Some 6" small_node "[7]"]
      subscribe_filters_when_not_syncing [of "answering_peer 2 ?css" "[7]" 0 small_env
        "Some True" None small_node "[7]"]
      subscribe_filters_when_not_syncing [of "answering_peer 1 ?css" "[7]" 0 small_env
        "Some False" None small_node "[7]"]
      subscribe_filters_when_not_syncing [of "silent_peer 2" "[7]" 0 small_env
        "Some False" None small_node "[7]"]
      u r f
    by simp
qed

subsection \<open>The weight proof cache\<close>

text \<open>
  C7, as amended: two calls of \<open>fetch_and_validate_the_weight_proof\<close> in a row receive
  weight proofs of the same hash that match the claimed peaks in height and weight. If the
  hash is not in \<open>valid_wp_cache\<close> before the first call and the validator accepts the
  proof, then \<open>validate_weight_proof\<close> is called exactly once: the first call stores
  the tuple under the hash and the second returns the stored tuple.
\<close>

theorem weight_proof_validated_once:
  assumes "request_proof_of_weight p1 (height peak1) (header_hash peak1) = Some wp1"
    and "request_proof_of_weight p2 (height peak2) (header_hash peak2) = Some wp2"
    and "recent_chain_data wp1 \<noteq> []" "recent_chain_data wp2 \<noteq> []"
    and "height (last (recent_chain_data wp1)) = height peak1"
    and "weight (last (recent_chain_data wp1)) = weight peak1"
    and "height (last (recent_chain_data wp2)) = height peak2"
    and "weight (last (recent_chain_data wp2)) = weight peak2"
    and "weight_proof_hash env wp1 = weight_proof_hash env wp2"
    and "valid_wp_cache s (weight_proof_hash env wp1) = None"
    and "validate_weight_proof env (wallet_state_manager s) wp1
           = (True, fork_point, summaries, block_records)"
  shows "two_fetches env p1 peak1 p2 peak2 s =
           Some (Inr ((True, Some wp1, summaries, block_records),
                      (True, Some wp2, summaries, block_records)),
                 s\<lparr> valid_wp_cache := (valid_wp_cache s)(weight_proof_hash env wp1 \<mapsto>
                        (True, fork_point, summaries, block_records)),
                    trace := trace s @ [ValidateWeightProof wp1] \<rparr>)"
  using assms
  by (simp add: two_fetches_def fetch_and_validate_the_weight_proof_def
      do_validate_weight_proof_def prog_defs)

theorem weight_proof_validated_once_witness:
  "two_fetches small_env (wp_peer 2 (proof_for (hb 1000 50 9 8) [1])) (hb 1000 50 9 8)
      (wp_peer 3 (proof_for (hb 1000 50 9 8) [1])) (hb 1000 50 9 8) small_node =
     Some (Inr ((True, Some (proof_for (hb 1000 50 9 8) [1]), [], []),
                (True, Some (proof_for (hb 1000 50 9 8) [1]), [], [])),
           small_node\<lparr> valid_wp_cache := (valid_wp_cache small_node)(1 \<mapsto> (True, 0, [], [])),
                       trace := [ValidateWeightProof (proof_for (hb 1000 50 9 8) [1])] \<rparr>)"
proof -
  let ?wp = "proof_for (hb 1000 50 9 8) [1]"
  have 1: "request_proof_of_weight (wp_peer 2 ?wp) (height (hb 1000 50 9 8)) (header_hash (hb 1000 50 9 8)) = Some ?wp"
    "request_proof_of_weight (wp_peer 3 ?wp) (height (hb 1000 50 9 8)) (header_hash (hb 1000 50 9 8)) = Some ?wp"
    by (simp_all add: wp_peer_def silent_peer_def)
  have 2: "recent_chain_data ?wp \<noteq> []" by (simp add: proof_for_def)
  have 3: "height (last (recent_chain_data ?wp)) = height (hb 1000 50 9 8)"
    "weight (last (recent_chain_data ?wp)) = weight (hb 1000 50 9 8)"
    by (simp_all add: proof_for_def)
  have 4: "weight_proof_hash small_env ?wp = 1" by (simp add: small_env_def proof_for_def)
  have 5: "valid_wp_cache small_node (weight_proof_hash small_env ?wp) = None"
    by (simp add: small_node_def)
  have 6: "validate_weight_proof small_env (wallet_state_manager small_node) ?wp = (True, 0, [], [])"
    by (simp add: small_env_def proof_for_def)
  have 7: "trace small_node = []" by (simp add: small_node_def)
  show ?thesis
    using weight_proof_validated_once [OF 1 2 2 3 3 refl 5 6] 4 7 by simp
qed

text \<open>
  C7 as stated fails: a proof that the validator rejects is not stored, and the second call
  validates it again.
\<close>

theorem invalid_weight_proof_validated_twice:
  "map_option trace (final_node (two_fetches small_env
      (wp_peer 2 (proof_for (hb 1000 50 9 8) [])) (hb 1000 50 9 8)
      (wp_peer 2 (proof_for (hb 1000 50 9 8) [])) (hb 1000 50 9 8) small_node)) =
     Some [ValidateWeightProof (proof_for (hb 1000 50 9 8) []),
           ValidateWeightProof (proof_for (hb 1000 50 9 8) [])]"
  by (simp add: final_node_def two_fetches_def fetch_and_validate_the_weight_proof_def
      do_validate_weight_proof_def prog_defs wp_peer_def silent_peer_def proof_for_def hb_def
      small_env_def small_node_def)

subsection \<open>Validation of a coin state\<close>

text \<open>
  C3: when \<open>validate_received_state_from_peer\<close> gets as far as the proof of inclusion
  for the creation of the coin (no answer from the cache or from the coin record, a header
  for the creation height, with a foliage transaction block) and
  \<open>request_and_validate_additions\<close> returns false for that header, the method closes
  the peer with code 9999 and returns false; the validated states of the request cache and
  the wallet state are as before.
\<close>

theorem additions_proof_failure_closes_peer:
  assumes "validation_start env cs (cache_of s p) fork_height
             (get_coin_record env (wallet_state_manager s) (coin_name env (coin cs)))
           = Check confirmed_height reorg_mode"
    and "state_block_for p (cache_of s p) confirmed_height reorg_mode = Inr state_block"
    and "foliage_transaction_block state_block = Some ftb"
    and "\<not> request_and_validate_additions p (height state_block) (header_hash state_block)
             (puzzle_hash (coin cs)) (additions_root ftb)"
  shows "\<exists>s'. validate_received_state_from_peer env cs p fork_height s = Some (Inr False, s') \<and>
              trace s' = trace s @ [PeerClose (peer_node_id p) (Some 9999)] \<and>
              states_validated (cache_of s' p) = states_validated (cache_of s p) \<and>
              wallet_state_manager s' = wallet_state_manager s"
  using assms
  by (simp add: validate_received_state_from_peer_def prog_defs update_cache_def cache_of_def)

theorem additions_proof_failure_closes_peer_witness:
  "outcome (validate_received_state_from_peer small_env (cs_at 7 (Some 5))
      (header_peer 2 [5 \<mapsto> hb 5 50 9 8]) None small_node) = Some (Inr False) \<and>
   map_option trace (final_node (validate_received_state_from_peer small_env (cs_at 7 (Some 5))
      (header_peer 2 [5 \<mapsto> hb 5 50 9 8]) None small_node)) = Some [PeerClose 2 (Some 9999)] \<and>
   map_option (\<lambda>s. states_validated (cache_of s (header_peer 2 [5 \<mapsto> hb 5 50 9 8])))
      (final_node (validate_received_state_from_peer small_env (cs_at 7 (Some 5))
      (header_peer 2 [5 \<mapsto> hb 5 50 9 8]) None small_node)) = Some Map.empty"
proof -
  let ?p = "header_peer 2 [5 \<mapsto> hb 5 50 9 8]"
  have c: "cache_of small_node ?p = PeerRequestCache"
    by (simp add: cache_of_def small_node_def)
  have 1: "validation_start small_env (cs_at 7 (Some 5)) (cache_of small_node ?p) None
             (get_coin_record small_env (wallet_state_manager small_node)
                (coin_name small_env (coin (cs_at 7 (Some 5)))))
           = Check 5 False"
    unfolding c by (simp add: validation_start_def small_env_def PeerRequestCache_def cs_at_def)
  have 2: "state_block_for ?p (cache_of small_node ?p) 5 False = Inr (hb 5 50 9 8)"
    unfolding c
    by (simp add: state_block_for_def PeerRequestCache_def header_block_at_def header_peer_def
        silent_peer_def)
  have 3: "foliage_transaction_block (hb 5 50 9 8)
            = Some \<lparr> additions_root = 0, removals_root = 0, timestamp = 1000 \<rparr>"
    by (simp add: hb_def)
  have 4: "\<not> request_and_validate_additions ?p (height (hb 5 50 9 8)) (header_hash (hb 5 50 9 8))
             (puzzle_hash (coin (cs_at 7 (Some 5))))
             (additions_root \<lparr> additions_root = 0, removals_root = 0, timestamp = 1000 \<rparr>)"
    by (simp add: header_peer_def silent_peer_def)
  have 5: "trace small_node = []" "peer_node_id ?p = 2"
    "states_validated PeerRequestCache = Map.empty"
    by (simp_all add: small_node_def header_peer_def silent_peer_def PeerRequestCache_def)
  from additions_proof_failure_closes_peer [OF 1 2 3 4] obtain s' where
    "validate_received_state_from_peer small_env (cs_at 7 (Some 5)) ?p None small_node
       = Some (Inr False, s')"
    "trace s' = trace small_node @ [PeerClose (peer_node_id ?p) (Some 9999)]"
    "states_validated (cache_of s' ?p) = states_validated (cache_of small_node ?p)"
    by blast
  then show ?thesis using 5 c by (simp add: outcome_def final_node_def)
qed

subsection \<open>Short sync\<close>

lemma fetch_backwards_stop:
  "contains_block env w (prev_header_hash top_block) \<or> height top_block \<le> 0 \<Longrightarrow>
   fetch_backwards env fuel p w top_block blks fork_height = Some (Inr (blks, fork_height))"
  by (subst fetch_backwards.simps) auto

lemma fetch_backwards_step:
  "\<not> contains_block env w (prev_header_hash top_block) \<Longrightarrow> height top_block > 0 \<Longrightarrow>
   request_block_header p (height top_block - 1) = Some prev_head \<Longrightarrow>
   fetch_backwards env (Suc fuel) p w top_block blks fork_height
     = fetch_backwards env fuel p w prev_head (blks @ [prev_head]) (height prev_head - 1)"
  by (subst fetch_backwards.simps) auto

lemma backtrack_three_back:
  assumes "get_peak_height env (wallet_state_manager s) = local_height"
    and "height header_block = 103"
    and "\<not> contains_block env (wallet_state_manager s) (prev_header_hash header_block)"
    and "request_block_header p 102 = Some b102" "height b102 = 102"
    and "\<not> contains_block env (wallet_state_manager s) (prev_header_hash b102)"
    and "request_block_header p 101 = Some b101" "height b101 = 101"
    and "\<not> contains_block env (wallet_state_manager s) (prev_header_hash b101)"
    and "request_block_header p 100 = Some b100" "height b100 = 100"
    and "contains_block env (wallet_state_manager s) (prev_header_hash b100)"
    and "\<forall>pk. get_peak_block env (wallet_state_manager s) = Some pk
              \<longrightarrow> weight pk \<le> weight header_block"
    and "blocks_accepted env [b100, b101, b102, header_block]
           (if 99 < local_height then reorg_rollback env 99 (wallet_state_manager s)
            else wallet_state_manager s)"
    and "3 \<le> fuel"
  shows "\<exists>s'. wallet_short_sync_backtrack env fuel header_block p s = Some (Inr 99, s') \<and>
              trace s' = trace s @ (if 99 < local_height then [ReorgRollback 99] else [])
                           @ [ReceiveBlock b100, ReceiveBlock b101, ReceiveBlock b102,
                              ReceiveBlock header_block]"
proof -
  from \<open>3 \<le> fuel\<close> obtain n where fuel: "fuel = Suc (Suc (Suc n))"
    by (metis Suc_le_D numeral_3_eq_3 Suc_le_mono)
  let ?w = "wallet_state_manager s"
  have f: "fetch_backwards env fuel p ?w header_block [header_block]
             (if contains_block env ?w (prev_header_hash header_block)
              then height header_block - 1 else 0)
           = Some (Inr ([header_block, b102, b101, b100], 99))"
    using assms(1-12) unfolding fuel
    by (simp add: fetch_backwards_step fetch_backwards_stop)
  have pk: "(case get_peak_block env ?w of
               None \<Rightarrow> ret ()
             | Some pk \<Rightarrow> if weight header_block \<ge> weight pk then ret ()
                          else raise AssertionError)
            = (ret () :: ('a wallet_node, unit) prog)"
    using assms(13) by (cases "get_peak_block env ?w") simp_all
  show ?thesis
  proof (cases "99 < local_height")
    case True
    with assms(14) have "blocks_accepted env [b100, b101, b102, header_block]
        (reorg_rollback env 99 ?w)" by simp
    then show ?thesis
      using assms(1) True f pk
      by (simp add: wallet_short_sync_backtrack_def do_reorg_rollback_def
          do_receive_block_def rollback_request_caches_def prog_defs case_prod_beta)
  next
    case False
    with assms(14) have "blocks_accepted env [b100, b101, b102, header_block] ?w" by simp
    then show ?thesis
      using assms(1) False f pk
      by (simp add: wallet_short_sync_backtrack_def do_reorg_rollback_def
          do_receive_block_def rollback_request_caches_def prog_defs case_prod_beta)
  qed
qed


text \<open>
  C2, as amended: the new peak header is at height 103, and the headers that the peer gives
  for the heights 102, 101 and 100 are unknown to the wallet down to the one at height 100,
  whose predecessor the wallet has. If the new peak header is not lighter than the local
  peak block, and the wallet judges none of the four headers invalid when they are applied
  in ascending order after the rollback, then \<open>wallet_short_sync_backtrack\<close> returns the
  fork height 99, rolls the wallet back to 99 exactly if 99 is below the local peak height
  (as it is for a local peak at height 100), and then applies \<open>receive_block\<close> to exactly
  four headers: the three fetched ones and the new peak header, in ascending order.
\<close>

theorem short_sync_backtrack_three_back:
  assumes "get_peak_height env (wallet_state_manager s) = local_height"
    and "height header_block = 103"
    and "\<not> contains_block env (wallet_state_manager s) (prev_header_hash header_block)"
    and "request_block_header p 102 = Some b102" "height b102 = 102"
    and "\<not> contains_block env (wallet_state_manager s) (prev_header_hash b102)"
    and "request_block_header p 101 = Some b101" "height b101 = 101"
    and "\<not> contains_block env (wallet_state_manager s) (prev_header_hash b101)"
    and "request_block_header p 100 = Some b100" "height b100 = 100"
    and "contains_block env (wallet_state_manager s) (prev_header_hash b100)"
    and "\<forall>pk. get_peak_block env (wallet_state_manager s) = Some pk
              \<longrightarrow> weight pk \<le> weight header_block"
    and "blocks_accepted env [b100, b101, b102, header_block]
           (if 99 < local_height then reorg_rollback env 99 (wallet_state_manager s)
            else wallet_state_manager s)"
    and "3 \<le> fuel"
  shows "\<exists>s'. wallet_short_sync_backtrack env fuel header_block p s = Some (Inr 99, s') \<and>
              trace s' = trace s @ (if 99 < local_height then [ReorgRollback 99] else [])
                           @ [ReceiveBlock b100, ReceiveBlock b101, ReceiveBlock b102,
                              ReceiveBlock header_block]"
  using assms by (rule backtrack_three_back)

lemma fork_scenario:
  "get_peak_height small_env (wallet_state_manager fork_node) = 100"
  "height (hb 103 1030 1103 1102) = 103"
  "\<not> contains_block small_env (wallet_state_manager fork_node)
       (prev_header_hash (hb 103 1030 1103 1102))"
  "request_block_header fork_peer 102 = Some (hb 102 1020 1102 1101)"
  "height (hb 102 1020 1102 1101) = 102"
  "\<not> contains_block small_env (wallet_state_manager fork_node)
       (prev_header_hash (hb 102 1020 1102 1101))"
  "request_block_header fork_peer 101 = Some (hb 101 1010 1101 1100)"
  "height (hb 101 1010 1101 1100) = 101"
  "\<not> contains_block small_env (wallet_state_manager fork_node)
       (prev_header_hash (hb 101 1010 1101 1100))"
  "request_block_header fork_peer 100 = Some (hb 100 1000 1100 99)"
  "height (hb 100 1000 1100 99) = 100"
  "contains_block small_env (wallet_state_manager fork_node)
       (prev_header_hash (hb 100 1000 1100 99))"
  "\<forall>pk. get_peak_block small_env (wallet_state_manager fork_node) = Some pk
              \<longrightarrow> weight pk \<le> weight (hb 103 1030 1103 1102)"
  "blocks_accepted small_env
     [hb 100 1000 1100 99, hb 101 1010 1101 1100, hb 102 1020 1102 1101, hb 103 1030 1103 1102]
     (if 99 < (100::int) then reorg_rollback small_env 99 (wallet_state_manager fork_node)
      else wallet_state_manager fork_node)"
  by (simp_all add: small_env_def fork_node_def small_node_def fork_peer_def header_peer_def
      silent_peer_def hb_def)

theorem short_sync_backtrack_three_back_witness:
  "outcome (wallet_short_sync_backtrack small_env 3 (hb 103 1030 1103 1102) fork_peer fork_node)
     = Some (Inr 99) \<and>
   map_option trace (final_node
     (wallet_short_sync_backtrack small_env 3 (hb 103 1030 1103 1102) fork_peer fork_node))
     = Some [ReorgRollback 99, ReceiveBlock (hb 100 1000 1100 99),
             ReceiveBlock (hb 101 1010 1101 1100), ReceiveBlock (hb 102 1020 1102 1101),
             ReceiveBlock (hb 103 1030 1103 1102)]"
proof -
  have t: "trace fork_node = []" by (simp add: fork_node_def small_node_def)
  from short_sync_backtrack_three_back [OF fork_scenario order_refl]
  show ?thesis using t by (auto simp: outcome_def final_node_def)
qed

text \<open>
  C2 as stated fails: in that scenario \<open>receive_block\<close> is applied four times, not three.
\<close>

theorem short_sync_backtrack_four_blocks:
  "outcome (wallet_short_sync_backtrack small_env 3 (hb 103 1030 1103 1102) fork_peer fork_node)
     = Some (Inr 99) \<and>
   map_option receive_block_count (map_option trace (final_node
     (wallet_short_sync_backtrack small_env 3 (hb 103 1030 1103 1102) fork_peer fork_node)))
     = Some 4"
proof -
  have t: "trace fork_node = []" by (simp add: fork_node_def small_node_def)
  from backtrack_three_back [OF fork_scenario order_refl]
  show ?thesis using t by (auto simp: outcome_def final_node_def receive_block_count_def)
qed

subsection \<open>Properties kept by every run\<close>

named_theorems preserves_intros

lemma preserves_ret [preserves_intros]: "preserves P (ret a)"
  by (simp add: preserves_def ret_def)

lemma preserves_raise [preserves_intros]: "preserves P (raise e)"
  by (simp add: preserves_def raise_def)

lemma preserves_out_of_fuel [preserves_intros]: "preserves P out_of_fuel"
  by (simp add: preserves_def out_of_fuel_def)

lemma preserves_gets [preserves_intros]: "preserves P (gets f)"
  by (simp add: preserves_def gets_def)

lemma preserves_wsm_get [preserves_intros]: "preserves P (wsm_get f)"
  by (simp add: preserves_def wsm_get_def gets_def)

lemma preserves_lift_result [preserves_intros]: "preserves P (lift_result r)"
  by (cases r) (simp_all add: preserves_def lift_result_def ret_def raise_def)

lemma preserves_bindM [preserves_intros]:
  "preserves P m \<Longrightarrow> (\<And>a. preserves P (f a)) \<Longrightarrow> preserves P (bindM m f)"
proof -
  assume m: "preserves P m" and f: "\<And>a. preserves P (f a)"
  show ?thesis
    unfolding preserves_def
  proof (intro allI impI)
    fix s r s'
    assume P: "P s" and b: "bindM m f s = Some (r, s')"
    show "P s'"
    proof (cases "m s")
      case None
      with b show ?thesis by (simp add: bindM_def)
    next
      case (Some x)
      obtain r1 s1 where x: "x = (r1, s1)" by (cases x)
      from m P Some x have P1: "P s1" unfolding preserves_def by blast
      show ?thesis
      proof (cases r1)
        case (Inl e)
        with b Some x P1 show ?thesis by (simp add: bindM_def)
      next
        case (Inr a)
        with b Some x have "f a s1 = Some (r, s')" by (simp add: bindM_def)
        with f P1 show ?thesis unfolding preserves_def by blast
      qed
    qed
  qed
qed

lemma preserves_thenM [preserves_intros]:
  "preserves P m \<Longrightarrow> preserves P n \<Longrightarrow> preserves P (thenM m n)"
  unfolding thenM_def by (rule preserves_bindM)

lemma preserves_whenM [preserves_intros]: "preserves P m \<Longrightarrow> preserves P (whenM b m)"
  by (simp add: whenM_def preserves_ret)

lemma preserves_try_except [preserves_intros]:
  "preserves P m \<Longrightarrow> (\<And>e. preserves P (h e)) \<Longrightarrow> preserves P (try_except m h)"
proof -
  assume m: "preserves P m" and h: "\<And>e. preserves P (h e)"
  show ?thesis
    unfolding preserves_def
  proof (intro allI impI)
    fix s r s'
    assume P: "P s" and b: "try_except m h s = Some (r, s')"
    show "P s'"
    proof (cases "m s")
      case None
      with b show ?thesis by (simp add: try_except_def)
    next
      case (Some x)
      obtain r1 s1 where x: "x = (r1, s1)" by (cases x)
      from m P Some x have P1: "P s1" unfolding preserves_def by blast
      show ?thesis
      proof (cases r1)
        case (Inl e)
        with b Some x have "h e s1 = Some (r, s')" by (simp add: try_except_def)
        with h P1 show ?thesis unfolding preserves_def by blast
      next
        case (Inr a)
        with b Some x P1 show ?thesis by (simp add: try_except_def)
      qed
    qed
  qed
qed

lemma preserves_if [preserves_intros]:
  "preserves P m \<Longrightarrow> preserves P n \<Longrightarrow> preserves P (if b then m else n)"
  by simp

lemma preserves_case_option [preserves_intros]:
  "preserves P m \<Longrightarrow> (\<And>x. preserves P (f x)) \<Longrightarrow>
   preserves P (case v of None \<Rightarrow> m | Some x \<Rightarrow> f x)"
  by (cases v) simp_all

lemma preserves_case_prod [preserves_intros]:
  "(\<And>a b. preserves P (f a b)) \<Longrightarrow> preserves P (case v of (a, b) \<Rightarrow> f a b)"
  by (cases v) simp

lemma preserves_case_sum [preserves_intros]:
  "(\<And>a. preserves P (f a)) \<Longrightarrow> (\<And>b. preserves P (g b)) \<Longrightarrow>
   preserves P (case v of Inl a \<Rightarrow> f a | Inr b \<Rightarrow> g b)"
  by (cases v) simp_all

lemma preserves_case_validation_start [preserves_intros]:
  "(\<And>b. preserves P (f b)) \<Longrightarrow> (\<And>h r. preserves P (g h r)) \<Longrightarrow>
   preserves P (case v of Answer b \<Rightarrow> f b | Check h r \<Rightarrow> g h r)"
  by (cases v) simp_all

lemma preserves_Let [preserves_intros]:
  "(\<And>x. preserves P (f x)) \<Longrightarrow> preserves P (Let v f)"
  by (simp add: Let_def)

lemma preserves_modify: "(\<And>s. P s \<Longrightarrow> P (f s)) \<Longrightarrow> preserves P (modify f)"
  by (simp add: preserves_def modify_def)

lemma preserves_weaken:
  "preserves P m \<Longrightarrow> P s \<Longrightarrow> m s = Some (r, s') \<Longrightarrow> P s'"
  unfolding preserves_def by blast


lemma fsu_do_receive_block:
  assumes "sync_height_kept env"
  shows "preserves (fsu_ge env c) (do_receive_block env b)"
  using assms
  by (auto simp: preserves_def do_receive_block_def prog_defs fsu_ge_def synced_up_to_def
      sync_height_kept_def case_prod_beta intro: order_trans)

lemma fsu_block_inclusion: "preserves (fsu_ge env c) (block_inclusion env b p)"
  by (auto simp: preserves_def block_inclusion_def prog_defs update_cache_def fsu_ge_def
      synced_up_to_def case_prod_beta split: sum.splits)

lemma fsu_pop_old_states: "preserves (fsu_ge env c) (pop_old_states h hashes)"
proof (induction hashes)
  case Nil
  show ?case by (simp add: preserves_ret)
next
  case (Cons x xs)
  obtain a b where x: "x = (a, b)" by (cases x)
  show ?case unfolding x pop_old_states.simps
    by (intro preserves_intros preserves_modify Cons) (simp add: fsu_ge_def synced_up_to_def)
qed

lemma fsu_add_state_to_race_cache:
  "preserves (fsu_ge env c) (add_state_to_race_cache hh h cs)"
  unfolding add_state_to_race_cache_def
  by (intro preserves_intros preserves_modify fsu_pop_old_states)
    (simp_all add: fsu_ge_def synced_up_to_def)


lemma ignores_requests_fsu: "ignores_requests (fsu_ge env c)"
  by (simp add: ignores_requests_def fsu_ge_def synced_up_to_def)

lemma keep_log_event: "ignores_requests P \<Longrightarrow> preserves P (log_event ev)"
  unfolding log_event_def by (rule preserves_modify) (simp add: ignores_requests_def)

lemma keep_peer_close: "ignores_requests P \<Longrightarrow> preserves P (peer_close p code)"
  unfolding peer_close_def by (rule keep_log_event)

lemma keep_update_cache: "ignores_requests P \<Longrightarrow> preserves P (update_cache p f)"
  unfolding update_cache_def by (rule preserves_modify) (simp add: ignores_requests_def)

lemma keep_get_cache_for_peer: "ignores_requests P \<Longrightarrow> preserves P (get_cache_for_peer p)"
  unfolding get_cache_for_peer_def by (rule preserves_modify) (simp add: ignores_requests_def)

lemma keep_rollback_request_caches:
  "ignores_requests P \<Longrightarrow> preserves P (rollback_request_caches env h)"
  unfolding rollback_request_caches_def by (rule preserves_modify) (simp add: ignores_requests_def)

lemma keep_block_inclusion:
  assumes "ignores_requests P"
  shows "preserves P (block_inclusion env b p)"
  unfolding block_inclusion_def
  by (intro preserves_intros keep_update_cache assms)

lemma keep_check_unspent:
  assumes "ignores_requests P"
  shows "preserves P (check_unspent env cs p current)"
  unfolding check_unspent_def
  by (intro preserves_intros keep_update_cache keep_peer_close keep_block_inclusion assms)

lemma keep_check_spent:
  assumes "ignores_requests P"
  shows "preserves P (check_spent env cs p)"
  unfolding check_spent_def
  by (intro preserves_intros keep_update_cache keep_peer_close keep_block_inclusion assms)

lemma keep_validate_received_state_from_peer:
  assumes "ignores_requests P"
  shows "preserves P (validate_received_state_from_peer env cs p fork_height)"
  unfolding validate_received_state_from_peer_def
  by (intro preserves_intros keep_update_cache keep_peer_close keep_block_inclusion
      keep_check_unspent keep_check_spent assms)


lemma fsu_wsm_do:
  assumes "\<And>w. get_finished_sync_up_to env w \<le> get_finished_sync_up_to env (f w)"
  shows "preserves (fsu_ge env c) (wsm_do f)"
  unfolding wsm_do_def
proof (rule preserves_modify)
  fix s :: "'a wallet_node"
  assume "fsu_ge env c s"
  then show "fsu_ge env c (s\<lparr>wallet_state_manager := f (wallet_state_manager s)\<rparr>)"
    using assms [of "wallet_state_manager s"] by (simp add: fsu_ge_def synced_up_to_def)
qed

lemma fsu_do_reorg_rollback:
  assumes "sync_height_kept env"
  shows "preserves (fsu_ge env c) (do_reorg_rollback env h)"
  unfolding do_reorg_rollback_def
  by (intro preserves_intros keep_log_event ignores_requests_fsu fsu_wsm_do)
    (use assms in \<open>simp add: sync_height_kept_def\<close>)

lemma fsu_do_new_coin_state:
  assumes "sync_height_kept env"
  shows "preserves (fsu_ge env c) (do_new_coin_state env states p fh)"
  unfolding do_new_coin_state_def
  by (intro preserves_intros keep_log_event ignores_requests_fsu fsu_wsm_do)
    (use assms in \<open>simp add: sync_height_kept_def\<close>)

lemma fsu_receive_and_validate:
  assumes "sync_height_kept env"
  shows "preserves (fsu_ge env c) (receive_and_validate env p trusted fork_height h hh cs)"
  unfolding receive_and_validate_def
  by (intro preserves_intros fsu_add_state_to_race_cache fsu_do_new_coin_state assms
      keep_validate_received_state_from_peer ignores_requests_fsu)

lemma fsu_receive_all:
  assumes "sync_height_kept env"
  shows "preserves (fsu_ge env c) (receive_all env p trusted fork_height h hh items)"
  by (induction items) (auto intro!: preserves_intros fsu_receive_and_validate assms)

lemma fsu_receive_state_from_peer:
  assumes "sync_height_kept env"
  shows "preserves (fsu_ge env c) (receive_state_from_peer env items p fork_height h hh)"
  unfolding receive_state_from_peer_def
  by (intro preserves_intros fsu_receive_all fsu_do_reorg_rollback assms
      keep_get_cache_for_peer keep_update_cache ignores_requests_fsu)

lemma fsu_subscribe_to_phs:
  "preserves (fsu_ge env c) (subscribe_to_phs env phs p syncing min_height fork_height)"
  unfolding subscribe_to_phs_def by (intro preserves_intros)

lemma fsu_subscribe_to_coin_updates:
  "preserves (fsu_ge env c) (subscribe_to_coin_updates env ids p syncing min_height fork_height)"
  unfolding subscribe_to_coin_updates_def by (intro preserves_intros)

lemma fsu_subscribe_chunks:
  assumes "sync_height_kept env"
  shows "preserves (fsu_ge env c)
           (subscribe_chunks env full_node syncing min_height fork_height chs already)"
  by (induction chs arbitrary: already)
    (auto intro!: preserves_intros fsu_subscribe_to_phs fsu_receive_state_from_peer assms)

lemma fsu_subscribe_all_phs:
  assumes "sync_height_kept env"
  shows "preserves (fsu_ge env c)
           (subscribe_all_phs env fuel full_node syncing min_height fork_height all_phs already)"
proof (induction fuel arbitrary: all_phs already)
  case 0
  show ?case by (simp add: preserves_out_of_fuel)
next
  case (Suc fuel)
  show ?case
    unfolding subscribe_all_phs.simps
    by (intro preserves_intros fsu_subscribe_chunks assms fsu_wsm_do Suc)
      (use assms in \<open>simp add: sync_height_kept_def\<close>)
qed


lemma fsu_advance:
  assumes kept: "sync_height_kept env"
    and rest: "preserves (fsu_ge env c) rest"
    and cond: "\<And>finished. cond finished \<Longrightarrow> target > finished"
  shows "preserves (fsu_ge env c)
           (bindM (wsm_get (get_finished_sync_up_to env)) (\<lambda>finished.
              thenM (whenM (cond finished) (wsm_do (set_finished_sync_up_to env target))) rest))"
  unfolding preserves_def
proof (intro allI impI)
  fix s r s'
  assume P: "fsu_ge env c s"
    and run: "bindM (wsm_get (get_finished_sync_up_to env)) (\<lambda>finished.
              thenM (whenM (cond finished) (wsm_do (set_finished_sync_up_to env target))) rest) s
            = Some (r, s')"
  let ?f = "get_finished_sync_up_to env (wallet_state_manager s)"
  let ?s1 = "if cond ?f
             then s\<lparr> wallet_state_manager :=
                       set_finished_sync_up_to env target (wallet_state_manager s) \<rparr>
             else s"
  have r: "rest ?s1 = Some (r, s')"
    using run by (simp add: prog_defs split: if_splits)
  have "fsu_ge env c ?s1"
  proof (cases "cond ?f")
    case True
    then have "?f < target" by (rule cond)
    moreover have "synced_up_to env ?s1 = target"
      using True kept by (simp add: synced_up_to_def sync_height_kept_def)
    ultimately show ?thesis using P by (simp add: fsu_ge_def synced_up_to_def)
  next
    case False
    then show ?thesis using P by simp
  qed
  with rest show "fsu_ge env c s'" using r by (rule preserves_weaken)
qed

lemma fsu_long_sync:
  assumes "sync_height_kept env"
  shows "preserves (fsu_ge env c) (long_sync env fuel target full_node syncing fork_height)"
  unfolding long_sync_def
  by (intro fsu_advance preserves_intros fsu_do_reorg_rollback keep_rollback_request_caches
      ignores_requests_fsu fsu_subscribe_all_phs assms preserves_modify)
    (simp_all add: fsu_ge_def synced_up_to_def)

lemma fsu_receive_blocks:
  assumes "sync_height_kept env"
  shows "preserves (fsu_ge env c) (receive_blocks env blks)"
  by (induction blks) (auto intro!: preserves_intros fsu_do_receive_block assms)

lemma fsu_wallet_short_sync_backtrack:
  assumes "sync_height_kept env"
  shows "preserves (fsu_ge env c) (wallet_short_sync_backtrack env fuel header_block p)"
  unfolding wallet_short_sync_backtrack_def
  by (intro preserves_intros fsu_do_reorg_rollback keep_rollback_request_caches
      ignores_requests_fsu fsu_receive_blocks assms)

lemma fsu_fetch_and_validate_the_weight_proof:
  "preserves (fsu_ge env c) (fetch_and_validate_the_weight_proof env p peak)"
  unfolding fetch_and_validate_the_weight_proof_def do_validate_weight_proof_def
  by (intro preserves_intros keep_log_event ignores_requests_fsu preserves_modify)
    (simp_all add: fsu_ge_def synced_up_to_def)

lemma fsu_close_untrusted: "preserves (fsu_ge env c) (close_untrusted env ids)"
  by (induction ids) (auto intro!: preserves_intros keep_log_event ignores_requests_fsu)

lemma fsu_sync_trusted:
  assumes "sync_height_kept env"
  shows "preserves (fsu_ge env c) (sync_trusted env fuel peak p header_block latest)"
  unfolding sync_trusted_def disconnect_and_stop_wpeers_def
  by (intro preserves_intros fsu_wsm_do fsu_close_untrusted fsu_long_sync assms)
    (use assms in \<open>simp_all add: sync_height_kept_def\<close>)

lemma fsu_sync_with_weight_proof:
  assumes "sync_height_kept env"
  shows "preserves (fsu_ge env c) (sync_with_weight_proof env fuel peak p header_block far_behind)"
  unfolding sync_with_weight_proof_def
  by (intro preserves_intros fsu_wsm_do fsu_fetch_and_validate_the_weight_proof fsu_long_sync
      keep_peer_close ignores_requests_fsu assms)
    (use assms in \<open>simp_all add: sync_height_kept_def\<close>)

lemma fsu_replay_race_cache:
  assumes "sync_height_kept env"
  shows "preserves (fsu_ge env c) (replay_race_cache env p hs)"
  by (induction hs) (auto intro!: preserves_intros fsu_receive_state_from_peer assms)

lemma fsu_short_sync:
  assumes "sync_height_kept env"
  shows "preserves (fsu_ge env c) (short_sync env fuel peak p header_block)"
  unfolding short_sync_def
  by (intro preserves_intros fsu_wsm_do fsu_wallet_short_sync_backtrack fsu_subscribe_to_phs
      fsu_subscribe_to_coin_updates fsu_receive_state_from_peer fsu_replay_race_cache
      preserves_modify assms)
    (use assms in \<open>simp_all add: sync_height_kept_def fsu_ge_def synced_up_to_def\<close>)

lemma fsu_process_new_peak:
  assumes "sync_height_kept env"
  shows "preserves (fsu_ge env c) (process_new_peak env fuel request_time peak p trusted)"
  unfolding process_new_peak_def
  by (intro fsu_advance preserves_intros fsu_wsm_do fsu_sync_trusted fsu_sync_with_weight_proof
      fsu_short_sync keep_peer_close ignores_requests_fsu assms)
    (use assms in \<open>simp_all add: sync_height_kept_def\<close>)

lemma fsu_new_peak_wallet:
  assumes "sync_height_kept env"
    and "\<And>s. synced_up_to env s \<le> synced_up_to env (others s)"
  shows "preserves (fsu_ge env c) (new_peak_wallet env fuel others request_time peak p)"
  unfolding new_peak_wallet_def
  by (intro preserves_intros fsu_process_new_peak preserves_modify assms(1))
    (use assms(2) in \<open>auto simp: fsu_ge_def synced_up_to_def intro: order_trans\<close>)


lemma fsu_new_peaks:
  assumes "sync_height_kept env"
    and "\<forall>(others, request_time, peak, p) \<in> set calls.
           \<forall>s. synced_up_to env s \<le> synced_up_to env (others s)"
    and "new_peaks env fuel calls s = Some s'"
  shows "synced_up_to env s \<le> synced_up_to env s'"
  using assms(2,3)
proof (induction calls arbitrary: s)
  case Nil
  then show ?case by simp
next
  case (Cons call calls)
  obtain others request_time peak p where call: "call = (others, request_time, peak, p)"
    by (cases call)
  from Cons.prems(2) obtain r s1 where
    1: "new_peak_wallet env fuel others request_time peak p s = Some (r, s1)"
    and 2: "new_peaks env fuel calls s1 = Some s'"
    by (auto simp: call split: option.splits)
  from Cons.prems(1) have o: "\<And>s. synced_up_to env s \<le> synced_up_to env (others s)"
    by (simp add: call)
  have "fsu_ge env (synced_up_to env s) s" by (simp add: fsu_ge_def)
  with fsu_new_peak_wallet [OF assms(1) o] have "fsu_ge env (synced_up_to env s) s1"
    using 1 by (rule preserves_weaken)
  moreover have "synced_up_to env s1 \<le> synced_up_to env s'"
    using Cons.prems(1) 2 by (intro Cons.IH) simp_all
  ultimately show ?case by (simp add: fsu_ge_def)
qed

text \<open>
  C8: if the wallet state manager reads back the height that was set and none of its other
  operations lowers it, and the handlers that run while a call waits for the lock do not
  lower it either, then \<open>finished_sync_up_to\<close> after any sequence of new-peak
  notifications is at least what it was before, and so it is after any run of
  \<open>long_sync\<close>: both places that set it do so only to a value above the current one.
\<close>

theorem finished_sync_up_to_never_decreases:
  assumes "sync_height_kept env"
    and "\<forall>(others, request_time, peak, p) \<in> set calls.
           \<forall>s. synced_up_to env s \<le> synced_up_to env (others s)"
    and "new_peaks env fuel calls s = Some s'"
  shows "synced_up_to env s \<le> synced_up_to env s' \<and>
         (\<forall>n target full_node syncing fork_height r s1.
            long_sync env n target full_node syncing fork_height s = Some (r, s1)
            \<longrightarrow> synced_up_to env s \<le> synced_up_to env s1)"
proof
  show "synced_up_to env s \<le> synced_up_to env s'" using assms by (rule fsu_new_peaks)
next
  have 0: "fsu_ge env (synced_up_to env s) s" by (simp add: fsu_ge_def)
  have "fsu_ge env (synced_up_to env s) s1"
    if "long_sync env n target full_node syncing fork_height s = Some (r, s1)"
    for n target full_node syncing fork_height r s1
    by (rule preserves_weaken [OF fsu_long_sync [OF assms(1)] 0 that])
  then show "\<forall>n target full_node syncing fork_height r s1.
            long_sync env n target full_node syncing fork_height s = Some (r, s1)
            \<longrightarrow> synced_up_to env s \<le> synced_up_to env s1"
    by (simp add: fsu_ge_def)
qed

lemma tie_run:
  "new_peak_wallet small_env 0 id 0 tie_peak tie_peer tie_node =
     Some (Inr (), tie_node\<lparr>
       wallet_state_manager :=
         \<lparr> sw_peak = Some (hb 10 50 77 65), sw_known = [66, 65], sw_finished = 10 \<rparr>,
       node_peaks := [1 \<mapsto> (10, 77)] \<rparr>)"
  by (simp add: new_peak_wallet_def process_new_peak_def behind_local_peak_def is_peer_synced_def
      sync_trusted_def disconnect_and_stop_wpeers_def is_trusted_def prog_defs
      tie_node_def tie_peer_def tie_peak_def small_node_def small_env_def header_peer_def
      silent_peer_def hb_def)


lemma small_env_kept: "sync_height_kept small_env"
  by (simp add: sync_height_kept_def small_env_def)

lemma lighter_run:
  "new_peak_wallet small_env 0 id 0 lighter_peak tie_peer tie_node_after =
     Some (Inr (), tie_node_after\<lparr> node_peaks := [1 \<mapsto> (9, 55)] \<rparr>)"
  by (simp add: new_peak_wallet_def behind_local_peak_def prog_defs tie_node_after_def
      tie_node_def tie_peer_def lighter_peak_def small_node_def small_env_def header_peer_def
      silent_peer_def hb_def)

theorem finished_sync_up_to_never_decreases_witness:
  "sync_height_kept small_env \<and>
   new_peaks small_env 0 [(id, 0, tie_peak, tie_peer), (id, 0, lighter_peak, tie_peer)] tie_node
     = Some (tie_node_after\<lparr> node_peaks := [1 \<mapsto> (9, 55)] \<rparr>) \<and>
   synced_up_to small_env tie_node = 0 \<and>
   synced_up_to small_env (tie_node_after\<lparr> node_peaks := [1 \<mapsto> (9, 55)] \<rparr>) = 10 \<and>
   synced_up_to small_env tie_node
     \<le> synced_up_to small_env (tie_node_after\<lparr> node_peaks := [1 \<mapsto> (9, 55)] \<rparr>)"
proof -
  have run: "new_peaks small_env 0 [(id, 0, tie_peak, tie_peer), (id, 0, lighter_peak, tie_peer)]
      tie_node = Some (tie_node_after\<lparr> node_peaks := [1 \<mapsto> (9, 55)] \<rparr>)"
    using tie_run lighter_run by (simp add: tie_node_after_def)
  have o: "\<forall>(others, request_time, peak, p)
             \<in> set [(id, 0::int, tie_peak, tie_peer), (id, 0, lighter_peak, tie_peer)].
           \<forall>s. synced_up_to small_env s \<le> synced_up_to small_env (others s)"
    by simp
  have v: "synced_up_to small_env tie_node = 0"
    "synced_up_to small_env (tie_node_after\<lparr> node_peaks := [1 \<mapsto> (9, 55)] \<rparr>) = 10"
    by (simp_all add: synced_up_to_def small_env_def tie_node_def tie_node_after_def small_node_def)
  from finished_sync_up_to_never_decreases [OF small_env_kept o run] small_env_kept run v
  show ?thesis by blast
qed

lemma lighter_peak_ignored:
  "(\<forall>hb. get_peak_block env (wallet_state_manager s) = Some hb \<and> peak_weight peak < weight hb
      \<longrightarrow> new_peak_wallet env fuel others request_time peak p s =
            Some (Inr (), s\<lparr> node_peaks := (node_peaks s)(peer_node_id p \<mapsto>
                                 (peak_height peak, peak_header_hash peak)) \<rparr>)) \<and>
   (\<forall>hb. \<not> behind_local_peak peak (get_peak_block env (wallet_state_manager s)) \<and>
      get_peak_block env (wallet_state_manager (others (s\<lparr> node_peaks :=
          (node_peaks s)(peer_node_id p \<mapsto> (peak_height peak, peak_header_hash peak)) \<rparr>)))
        = Some hb \<and> peak_weight peak < weight hb
      \<longrightarrow> new_peak_wallet env fuel others request_time peak p s =
            Some (Inr (), others (s\<lparr> node_peaks := (node_peaks s)(peer_node_id p \<mapsto>
                                 (peak_height peak, peak_header_hash peak)) \<rparr>)))"
  by (simp add: new_peak_wallet_def behind_local_peak_def prog_defs)


text \<open>
  C1, as amended: if the wallet has a local peak block whose weight is greater than the
  weight of the advertised peak, \<open>new_peak_wallet\<close> returns having only recorded the
  peak of the peer in \<open>_node_peaks\<close>; nothing else of the node and nothing of the wallet
  state changes. The same test is made again after the wait for the low-priority lock, and
  then the call leaves the node as the other handlers left it.
\<close>

theorem new_peak_ignored_when_lighter:
  "(\<forall>hb. get_peak_block env (wallet_state_manager s) = Some hb \<and> peak_weight peak < weight hb
      \<longrightarrow> new_peak_wallet env fuel others request_time peak p s =
            Some (Inr (), s\<lparr> node_peaks := (node_peaks s)(peer_node_id p \<mapsto>
                                 (peak_height peak, peak_header_hash peak)) \<rparr>)) \<and>
   (\<forall>hb. \<not> behind_local_peak peak (get_peak_block env (wallet_state_manager s)) \<and>
      get_peak_block env (wallet_state_manager (others (s\<lparr> node_peaks :=
          (node_peaks s)(peer_node_id p \<mapsto> (peak_height peak, peak_header_hash peak)) \<rparr>)))
        = Some hb \<and> peak_weight peak < weight hb
      \<longrightarrow> new_peak_wallet env fuel others request_time peak p s =
            Some (Inr (), others (s\<lparr> node_peaks := (node_peaks s)(peer_node_id p \<mapsto>
                                 (peak_height peak, peak_header_hash peak)) \<rparr>)))"
  by (rule lighter_peak_ignored)

theorem new_peak_ignored_when_lighter_witness:
  "new_peak_wallet small_env 0 id 0 lighter_peak tie_peer tie_node
     = Some (Inr (), tie_node\<lparr> node_peaks := [1 \<mapsto> (9, 55)] \<rparr>) \<and>
   new_peak_wallet small_env 0 heavier_arrives 0 tie_peak tie_peer tie_node
     = Some (Inr (), heavier_arrives (tie_node\<lparr> node_peaks := [1 \<mapsto> (10, 77)] \<rparr>))"
proof -
  have 1: "get_peak_block small_env (wallet_state_manager tie_node) = Some (hb 10 50 66 65)"
    "peak_weight lighter_peak < weight (hb 10 50 66 65)"
    "\<not> behind_local_peak tie_peak (get_peak_block small_env (wallet_state_manager tie_node))"
    by (simp_all add: small_env_def tie_node_def small_node_def lighter_peak_def hb_def
        behind_local_peak_def tie_peak_def)
  have 2: "get_peak_block small_env (wallet_state_manager (heavier_arrives (tie_node\<lparr> node_peaks :=
          (node_peaks tie_node)(peer_node_id tie_peer \<mapsto>
             (peak_height tie_peak, peak_header_hash tie_peak)) \<rparr>))) = Some (hb 11 60 88 66)"
    "peak_weight tie_peak < weight (hb 11 60 88 66)"
    by (simp_all add: small_env_def heavier_arrives_def tie_peak_def hb_def)
  have 3: "(node_peaks tie_node)(peer_node_id tie_peer \<mapsto>
             (peak_height lighter_peak, peak_header_hash lighter_peak)) = [1 \<mapsto> (9, 55)]"
    "(node_peaks tie_node)(peer_node_id tie_peer \<mapsto>
             (peak_height tie_peak, peak_header_hash tie_peak)) = [1 \<mapsto> (10, 77)]"
    by (simp_all add: tie_node_def small_node_def tie_peer_def header_peer_def silent_peer_def
        lighter_peak_def tie_peak_def)
  from new_peak_ignored_when_lighter [of small_env tie_node lighter_peak 0 id 0 tie_peer] 1
  have a: "new_peak_wallet small_env 0 id 0 lighter_peak tie_peer tie_node
     = Some (Inr (), tie_node\<lparr> node_peaks := [1 \<mapsto> (9, 55)] \<rparr>)"
    unfolding 3 by blast
  from new_peak_ignored_when_lighter [of small_env tie_node tie_peak 0 heavier_arrives 0 tie_peer] 1 2
  have b: "new_peak_wallet small_env 0 heavier_arrives 0 tie_peak tie_peer tie_node
     = Some (Inr (), heavier_arrives (tie_node\<lparr> node_peaks := [1 \<mapsto> (10, 77)] \<rparr>))"
    unfolding 3 by blast
  from a b show ?thesis by blast
qed

text \<open>
  C1 as stated fails: a peak of the same weight as the local peak is not ignored. Here it
  replaces the peak block of the wallet and moves \<open>finished_sync_up_to\<close>.
\<close>

theorem equal_weight_peak_is_processed:
  "get_peak_block small_env (wallet_state_manager tie_node) = Some (hb 10 50 66 65) \<and>
   peak_weight tie_peak \<le> weight (hb 10 50 66 65) \<and>
   map_option wallet_state_manager
     (final_node (new_peak_wallet small_env 0 id 0 tie_peak tie_peer tie_node))
     = Some \<lparr> sw_peak = Some (hb 10 50 77 65), sw_known = [66, 65], sw_finished = 10 \<rparr> \<and>
   wallet_state_manager tie_node
     \<noteq> \<lparr> sw_peak = Some (hb 10 50 77 65), sw_known = [66, 65], sw_finished = 10 \<rparr>"
  by (simp add: tie_run final_node_def)
    (simp add: small_env_def tie_node_def small_node_def tie_peak_def hb_def)


lemma ignores_requests_race: "ignores_requests (race_cache_is rc hashes)"
  by (simp add: ignores_requests_def race_cache_is_def)

lemma race_do_new_coin_state:
  "preserves (race_cache_is rc hashes) (do_new_coin_state env states p fh)"
  unfolding do_new_coin_state_def wsm_do_def
  by (intro preserves_intros keep_log_event ignores_requests_race preserves_modify)
    (simp add: race_cache_is_def)

lemma race_receive_all:
  "preserves (race_cache_is rc hashes) (receive_all env p trusted None None None items)"
proof (induction items)
  case Nil
  show ?case by (simp add: preserves_ret)
next
  case (Cons x xs)
  have "preserves (race_cache_is rc hashes) (receive_and_validate env p trusted None None None x)"
    unfolding receive_and_validate_def option.case
    by (intro preserves_intros race_do_new_coin_state keep_validate_received_state_from_peer
        ignores_requests_race)
  then show ?case using Cons by (simp add: preserves_thenM)
qed

lemma race_receive_state_from_peer:
  "preserves (race_cache_is rc hashes) (receive_state_from_peer env items p None None None)"
  unfolding receive_state_from_peer_def
  by (simp add: Let_def)
    (intro preserves_intros race_receive_all keep_get_cache_for_peer ignores_requests_race)

lemma race_replay_race_cache:
  "preserves (race_cache_is rc hashes) (replay_race_cache env p hs)"
  by (induction hs) (auto intro!: preserves_intros race_receive_state_from_peer)

lemma thenM_ret_unit: "thenM m (ret ()) = (m :: ('s, unit) prog)"
proof
  fix s
  show "thenM m (ret ()) s = m s"
    by (cases "m s") (auto simp: thenM_def bindM_def ret_def split: sum.splits)
qed

lemma replay_keeps:
  "(\<forall>r s'. replay_race_cache env p hs s = Some (r, s')
      \<longrightarrow> race_cache s' = race_cache s \<and> race_cache_hashes s' = race_cache_hashes s) \<and>
   (\<forall>states. race_cache s (height_to_hash env (wallet_state_manager s) h) = Some states
      \<longrightarrow> replay_race_cache env p [h] s
            = receive_state_from_peer env states p None None None s)"
proof
  have "race_cache s' = race_cache s \<and> race_cache_hashes s' = race_cache_hashes s"
    if run: "replay_race_cache env p hs s = Some (r, s')" for r s'
  proof -
    have "race_cache_is (race_cache s) (race_cache_hashes s) s" by (simp add: race_cache_is_def)
    with race_replay_race_cache have "race_cache_is (race_cache s) (race_cache_hashes s) s'"
      using run by (rule preserves_weaken)
    then show ?thesis by (simp add: race_cache_is_def)
  qed
  then show "\<forall>r s'. replay_race_cache env p hs s = Some (r, s')
      \<longrightarrow> race_cache s' = race_cache s \<and> race_cache_hashes s' = race_cache_hashes s"
    by blast
next
  have "replay_race_cache env p [h] s = receive_state_from_peer env states p None None None s"
    if "race_cache s (height_to_hash env (wallet_state_manager s) h) = Some states" for states
    using that by (simp add: thenM_ret_unit) (simp add: bindM_def wsm_get_def gets_def)
  then show "\<forall>states. race_cache s (height_to_hash env (wallet_state_manager s) h) = Some states
      \<longrightarrow> replay_race_cache env p [h] s
            = receive_state_from_peer env states p None None None s"
    by blast
qed

lemma raced_run:
  "replay_race_cache small_env raced_peer [5] raced_node =
     Some (Inr (), raced_node\<lparr>
       untrusted_caches := [2 \<mapsto> PeerRequestCache\<lparr> blocks := [5 \<mapsto> hb 5 50 9 8],
                                 states_validated := [7 \<mapsto> cs_at 7 (Some 5)] \<rparr>],
       trace := [NewCoinState [cs_at 7 (Some 5)] 2 None] \<rparr>)"
  by (simp add: receive_state_from_peer_def receive_and_validate_def
      validate_received_state_from_peer_def validation_start_def state_block_for_def
      header_block_at_def block_inclusion_def check_unspent_def check_spent_def
      do_new_coin_state_def get_cache_for_peer_def update_cache_def cache_of_def is_trusted_def
      prog_defs raced_node_def raced_peer_def proving_peer_def header_peer_def silent_peer_def
      small_node_def small_env_def PeerRequestCache_def cs_at_def hb_def)

text \<open>
  C6, as amended: the replay of the race cache (lines 899 to 904) changes neither the race
  cache nor its list of hashes, so the replayed header hashes are still in the race cache
  afterwards; and the replay for one height whose hash is in the race cache is
  \<open>receive_state_from_peer\<close> on exactly the coin states stored under that hash.
\<close>

theorem replay_keeps_race_cache:
  "(\<forall>r s'. replay_race_cache env p hs s = Some (r, s')
      \<longrightarrow> race_cache s' = race_cache s \<and> race_cache_hashes s' = race_cache_hashes s) \<and>
   (\<forall>states. race_cache s (height_to_hash env (wallet_state_manager s) h) = Some states
      \<longrightarrow> replay_race_cache env p [h] s
            = receive_state_from_peer env states p None None None s)"
  by (rule replay_keeps)

theorem replay_keeps_race_cache_witness:
  "replay_race_cache small_env raced_peer [5] raced_node =
     Some (Inr (), raced_node\<lparr>
       untrusted_caches := [2 \<mapsto> PeerRequestCache\<lparr> blocks := [5 \<mapsto> hb 5 50 9 8],
                                 states_validated := [7 \<mapsto> cs_at 7 (Some 5)] \<rparr>],
       trace := [NewCoinState [cs_at 7 (Some 5)] 2 None] \<rparr>) \<and>
   race_cache raced_node (height_to_hash small_env (wallet_state_manager raced_node) 5)
     = Some [cs_at 7 (Some 5)] \<and>
   replay_race_cache small_env raced_peer [5] raced_node
     = receive_state_from_peer small_env [cs_at 7 (Some 5)] raced_peer None None None raced_node \<and>
   race_cache (raced_node\<lparr>
       untrusted_caches := [2 \<mapsto> PeerRequestCache\<lparr> blocks := [5 \<mapsto> hb 5 50 9 8],
                                 states_validated := [7 \<mapsto> cs_at 7 (Some 5)] \<rparr>],
       trace := [NewCoinState [cs_at 7 (Some 5)] 2 None] \<rparr>) = race_cache raced_node"
proof -
  have 1: "race_cache raced_node (height_to_hash small_env (wallet_state_manager raced_node) 5)
     = Some [cs_at 7 (Some 5)]"
    by (simp add: raced_node_def small_env_def)
  from replay_keeps_race_cache [of small_env raced_peer "[5]" raced_node 5] raced_run 1
  show ?thesis by simp
qed

text \<open>
  C6 as stated fails: after the replay for the height 5 the entry under its hash is still in
  the race cache.
\<close>

theorem replayed_entry_stays_in_race_cache:
  "height_to_hash small_env (wallet_state_manager raced_node) 5 = 5 \<and>
   race_cache raced_node 5 = Some [cs_at 7 (Some 5)] \<and>
   map_option trace (final_node (replay_race_cache small_env raced_peer [5] raced_node))
     = Some [NewCoinState [cs_at 7 (Some 5)] 2 None] \<and>
   map_option race_cache (final_node (replay_race_cache small_env raced_peer [5] raced_node))
     = Some [5 \<mapsto> [cs_at 7 (Some 5)]]"
  unfolding raced_run final_node_def by (simp add: raced_node_def small_env_def small_node_def)



end
